theory Spec2Isabelle
  imports Complex_Main
begin

unbundle bit_operations_syntax

section \<open>libsensors access layer (lib/access.c)\<close>

text \<open>
  A shallow embedding of \<^verbatim>\<open>lib/access.c\<close>. C \<^verbatim>\<open>int\<close> return codes are
  \<^typ>\<open>int\<close> (0 is success), C \<^verbatim>\<open>double\<close> values are \<^typ>\<open>real\<close> (rounding,
  infinities and NaN are not modelled), C strings are \<^typ>\<open>string\<close>, counted arrays and
  arrays ended by a sentinel are lists, and an out-parameter is returned next to the return
  code, its content before the call being an argument. A function whose C execution may
  recurse without bound, or hand a null pointer to the C library, returns an \<open>option\<close>,
  \<open>None\<close> standing for "no defined result".
\<close>

subsection \<open>Constants of the headers\<close>

text \<open>
  Modelled from the spec: the error numbers of \<^verbatim>\<open>error.h\<close> are not part of the
  sources at hand. The spec names the error kinds (WildcardsNotAllowed, UnknownFeature,
  AccessDenied, IOError, DivisionByZero); the numbers below are those of libsensors, and the
  development only relies on their being positive and pairwise distinct.
\<close>

definition SENSORS_ERR_WILDCARDS :: int where "SENSORS_ERR_WILDCARDS = 1"
definition SENSORS_ERR_NO_ENTRY :: int where "SENSORS_ERR_NO_ENTRY = 2"
definition SENSORS_ERR_PROC :: int where "SENSORS_ERR_PROC = 4"
definition SENSORS_ERR_DIV_ZERO :: int where "SENSORS_ERR_DIV_ZERO = 5"
definition SENSORS_ERR_ACCESS_W :: int where "SENSORS_ERR_ACCESS_W = 9"
definition SENSORS_ERR_ACCESS_R :: int where "SENSORS_ERR_ACCESS_R = 10"

text \<open>
  Modelled from the spec: the access-mode bits of \<^verbatim>\<open>sensors.h\<close> (the spec's
  \<open>access_mode\<close> R, W, RW) are tested with a bitwise and.
\<close>

definition SENSORS_MODE_R :: int where "SENSORS_MODE_R = 1"
definition SENSORS_MODE_W :: int where "SENSORS_MODE_W = 2"

subsection \<open>Data model\<close>

text \<open>
  The struct declarations (\<^verbatim>\<open>sensors.h\<close>, \<^verbatim>\<open>data.h\<close>) are not part of the sources at
  hand; the records below have the fields that \<^verbatim>\<open>access.c\<close> reads, under the names it
  uses, with a prefix where two structs share a field name.
\<close>

text \<open>
  Modelled from the spec: the bus selector. \<^verbatim>\<open>sensors.h\<close> encodes it as an
  \<^verbatim>\<open>int\<close> with the negative sentinels \<^verbatim>\<open>SENSORS_CHIP_NAME_BUS_ISA\<close>, \<^verbatim>\<open>_PCI\<close>,
  \<^verbatim>\<open>_DUMMY\<close>, \<^verbatim>\<open>_ANY_I2C\<close>, \<^verbatim>\<open>_ANY\<close> and a non-negative I2C bus number; the
  sentinels are pairwise distinct, so comparing two selectors is comparing the integers.
\<close>

datatype sensors_bus = BUS_ISA | BUS_PCI | BUS_DUMMY | BUS_ANY_I2C | BUS_I2C int | BUS_ANY

text \<open>
  \<^verbatim>\<open>sensors_chip_name\<close>. The prefix is a C string pointer, \<open>None\<close> being
  \<^verbatim>\<open>SENSORS_CHIP_NAME_PREFIX_ANY\<close>; the address is an integer, \<open>None\<close> being
  \<^verbatim>\<open>SENSORS_CHIP_NAME_ADDR_ANY\<close>.
\<close>

record sensors_chip_name =
  cn_prefix :: "string option"
  cn_bus :: sensors_bus
  cn_addr :: "int option"

text \<open>
  \<^verbatim>\<open>sensors_feature_data\<close>: \<open>None\<close> in a mapping field is \<^verbatim>\<open>SENSORS_NO_MAPPING\<close>.
\<close>

record sensors_feature_data =
  fd_number :: int
  fd_name :: string
  fd_mapping :: "int option"
  fd_compute_mapping :: "int option"
  fd_mode :: int

record sensors_chip_feature =
  data :: sensors_feature_data

text \<open>One family of \<^verbatim>\<open>sensors_chip_features_list\<close>: a prefix and its feature table.\<close>

record sensors_chip_features =
  cf_prefix :: string
  cf_feature :: "sensors_chip_feature list"

datatype sensors_operation =
  sensors_add | sensors_sub | sensors_multiply | sensors_divide
  | sensors_negate | sensors_exp | sensors_log

text \<open>
  \<^verbatim>\<open>sensors_expr\<close>, by its \<^verbatim>\<open>kind\<close>. In a \<^verbatim>\<open>sensors_kind_sub\<close> node
  \<^verbatim>\<open>sub2\<close> may be a null pointer (\<open>None\<close>), which the evaluator tests for.
\<close>

datatype sensors_expr =
  Kind_val real
  | Kind_source
  | Kind_var string
  | Kind_sub sensors_operation sensors_expr "sensors_expr option"

record sensors_label =
  label_name :: string
  label_value :: string

record sensors_set =
  set_name :: string
  set_value :: sensors_expr
  set_lineno :: int

record sensors_compute =
  compute_name :: string
  from_proc :: sensors_expr
  to_proc :: sensors_expr

record sensors_ignore =
  ignore_name :: string

text \<open>\<^verbatim>\<open>sensors_chip\<close>: one chip section of the configuration file.\<close>

record sensors_chip =
  fits :: "sensors_chip_name list"
  labels :: "sensors_label list"
  sets :: "sensors_set list"
  computes :: "sensors_compute list"
  ignores :: "sensors_ignore list"

subsection \<open>Case-insensitive comparison\<close>

text \<open>
  \<^verbatim>\<open>tolower\<close> in the C locale: the codes 65 to 90 (A to Z) are moved up by 32, which for
  these codes is setting the bit of weight 32.
\<close>

definition tolower :: "char \<Rightarrow> char" where
  "tolower c =
     (if 65 \<le> (of_char c :: nat) \<and> (of_char c :: nat) \<le> 90
      then (case c of Char b0 b1 b2 b3 b4 b5 b6 b7 \<Rightarrow> Char b0 b1 b2 b3 b4 True b6 b7)
      else c)"

text \<open>
  \<^verbatim>\<open>strcasecmp\<close> of the C library in the C locale: 0 when the strings agree up to
  the case of ASCII letters, else the difference of the first two bytes that differ.
\<close>

fun strcasecmp :: "string \<Rightarrow> string \<Rightarrow> int" where
  "strcasecmp [] [] = 0"
| "strcasecmp [] (b # bs) = - int (of_char (tolower b))"
| "strcasecmp (a # as) [] = int (of_char (tolower a))"
| "strcasecmp (a # as) (b # bs) =
     (if tolower a = tolower b then strcasecmp as bs
      else int (of_char (tolower a)) - int (of_char (tolower b)))"

subsection \<open>Chip matching and the configuration cursor\<close>

definition sensors_match_chip :: "sensors_chip_name \<Rightarrow> sensors_chip_name \<Rightarrow> bool" where
  "sensors_match_chip chip1 chip2 =
     (if (case (cn_prefix chip1, cn_prefix chip2) of
            (Some p1, Some p2) \<Rightarrow> strcasecmp p1 p2 \<noteq> 0
          | _ \<Rightarrow> False)
      then False
      else if cn_bus chip1 \<noteq> BUS_ANY \<and> cn_bus chip2 \<noteq> BUS_ANY \<and> cn_bus chip1 \<noteq> cn_bus chip2
              \<and> (cn_bus chip1 = BUS_ISA \<or> cn_bus chip2 = BUS_ISA
                  \<or> cn_bus chip1 = BUS_PCI \<or> cn_bus chip2 = BUS_PCI
                  \<or> (cn_bus chip1 \<noteq> BUS_ANY_I2C \<and> cn_bus chip2 \<noteq> BUS_ANY_I2C))
      then False
      else if cn_addr chip1 \<noteq> cn_addr chip2 \<and> cn_addr chip1 \<noteq> None \<and> cn_addr chip2 \<noteq> None
      then False
      else True)"

text \<open>The inner loop of \<^verbatim>\<open>sensors_for_all_config_chips\<close> over \<^verbatim>\<open>chips.fits\<close>.\<close>

fun fits_match :: "sensors_chip_name list \<Rightarrow> sensors_chip_name \<Rightarrow> bool" where
  "fits_match [] chip_name = False"
| "fits_match (f # fs) chip_name =
     (if sensors_match_chip f chip_name then True else fits_match fs chip_name)"

text \<open>
  The outer loop, \<^verbatim>\<open>for (nr = ...; nr >= 0; nr--)\<close>: the third argument is
  \<^verbatim>\<open>nr + 1\<close>, the number of entries still to be looked at.
\<close>

fun scan_config_chips :: "sensors_chip list \<Rightarrow> sensors_chip_name \<Rightarrow> nat \<Rightarrow> nat option" where
  "scan_config_chips cfg chip_name 0 = None"
| "scan_config_chips cfg chip_name (Suc nr) =
     (if fits_match (fits (cfg ! nr)) chip_name then Some nr
      else scan_config_chips cfg chip_name nr)"

text \<open>
  \<^verbatim>\<open>sensors_for_all_config_chips\<close>: the cursor \<^verbatim>\<open>last\<close> and the result are positions in
  \<^verbatim>\<open>sensors_config_chips\<close> (pointers into the array in C), \<open>None\<close> the null pointer.
\<close>

definition sensors_for_all_config_chips ::
  "sensors_chip list \<Rightarrow> sensors_chip_name \<Rightarrow> nat option \<Rightarrow> nat option" where
  "sensors_for_all_config_chips cfg chip_name lst =
     scan_config_chips cfg chip_name (case lst of None \<Rightarrow> length cfg | Some l \<Rightarrow> l)"

lemma scan_config_chips_less:
  "scan_config_chips cfg chip_name n = Some nr \<Longrightarrow> nr < n"
  by (induction n) (auto split: if_splits)

text \<open>
  The entries visited by \<^verbatim>\<open>for (chip = last; (chip = sensors_for_all_config_chips(name, chip));)\<close>,
  in the order of the visits.
\<close>

function config_chips_after ::
  "sensors_chip list \<Rightarrow> sensors_chip_name \<Rightarrow> nat option \<Rightarrow> sensors_chip list" where
  "config_chips_after cfg chip_name lst =
     (case sensors_for_all_config_chips cfg chip_name lst of
        None \<Rightarrow> []
      | Some nr \<Rightarrow> cfg ! nr # config_chips_after cfg chip_name (Some nr))"
  by pat_completeness auto
termination
proof (relation "measure (\<lambda>(cfg, chip_name, lst).
                   case lst of None \<Rightarrow> Suc (length cfg) | Some l \<Rightarrow> l)")
  show "wf (measure (\<lambda>(cfg, chip_name, lst).
              case lst of None \<Rightarrow> Suc (length cfg) | Some l \<Rightarrow> (l :: nat)))"
    by simp
next
  fix cfg :: "sensors_chip list" and chip_name lst nr
  assume "sensors_for_all_config_chips cfg chip_name lst = Some nr"
  then have "nr < (case lst of None \<Rightarrow> length cfg | Some l \<Rightarrow> l)"
    unfolding sensors_for_all_config_chips_def by (rule scan_config_chips_less)
  then show "((cfg, chip_name, Some nr), (cfg, chip_name, lst))
             \<in> measure (\<lambda>(cfg, chip_name, lst).
                   case lst of None \<Rightarrow> Suc (length cfg) | Some l \<Rightarrow> l)"
    by (cases lst) auto
qed

declare config_chips_after.simps [simp del]

subsection \<open>Feature catalogue\<close>

text \<open>The inner loops of the two look-ups, over one family's feature table.\<close>

fun find_feature_nr :: "sensors_chip_feature list \<Rightarrow> int \<Rightarrow> sensors_chip_feature option" where
  "find_feature_nr [] feature = None"
| "find_feature_nr (f # fs) feature =
     (if fd_number (data f) = feature then Some f else find_feature_nr fs feature)"

fun find_feature_name :: "sensors_chip_feature list \<Rightarrow> string \<Rightarrow> sensors_chip_feature option" where
  "find_feature_name [] feature = None"
| "find_feature_name (f # fs) feature =
     (if strcasecmp (fd_name (data f)) feature = 0 then Some f
      else find_feature_name fs feature)"

text \<open>
  \<^verbatim>\<open>sensors_lookup_feature_nr\<close> and \<^verbatim>\<open>sensors_lookup_feature_name\<close>: a family whose
  prefix matches but which lacks the feature does not end the search.
\<close>

fun sensors_lookup_feature_nr ::
  "sensors_chip_features list \<Rightarrow> string \<Rightarrow> int \<Rightarrow> sensors_chip_feature option" where
  "sensors_lookup_feature_nr [] pfx feature = None"
| "sensors_lookup_feature_nr (c # cs) pfx feature =
     (if strcasecmp (cf_prefix c) pfx = 0
      then (case find_feature_nr (cf_feature c) feature of
              Some f \<Rightarrow> Some f
            | None \<Rightarrow> sensors_lookup_feature_nr cs pfx feature)
      else sensors_lookup_feature_nr cs pfx feature)"

fun sensors_lookup_feature_name ::
  "sensors_chip_features list \<Rightarrow> string \<Rightarrow> string \<Rightarrow> sensors_chip_feature option" where
  "sensors_lookup_feature_name [] pfx feature = None"
| "sensors_lookup_feature_name (c # cs) pfx feature =
     (if strcasecmp (cf_prefix c) pfx = 0
      then (case find_feature_name (cf_feature c) feature of
              Some f \<Rightarrow> Some f
            | None \<Rightarrow> sensors_lookup_feature_name cs pfx feature)
      else sensors_lookup_feature_name cs pfx feature)"

definition sensors_chip_name_has_wildcards :: "sensors_chip_name \<Rightarrow> bool" where
  "sensors_chip_name_has_wildcards chip =
     (if cn_prefix chip = None \<or> cn_bus chip = BUS_ANY \<or> cn_bus chip = BUS_ANY_I2C
         \<or> cn_addr chip = None
      then True else False)"

subsection \<open>The library's global data and the world outside\<close>

text \<open>
  The global tables the functions read, the two functions of the kernel interface
  (\<^verbatim>\<open>proc.h\<close>, not part of the sources at hand, hence parameters) over a hardware state
  \<open>'h\<close>, and \<open>uninit\<close>, the content of a local \<^verbatim>\<open>double\<close> that has not been assigned.
  \<open>read_proc\<close> yields \<open>None\<close> when \<^verbatim>\<open>sensors_read_proc\<close> returns non-zero;
  \<open>write_proc\<close> yields the return code of \<^verbatim>\<open>sensors_write_proc\<close> and the new hardware
  state.
\<close>

record 'h sensors_env =
  sensors_chip_features_list :: "sensors_chip_features list"
  sensors_config_chips :: "sensors_chip list"
  sensors_proc_chips :: "sensors_chip_name list"
  read_proc :: "'h \<Rightarrow> sensors_chip_name \<Rightarrow> int \<Rightarrow> real option"
  write_proc :: "'h \<Rightarrow> sensors_chip_name \<Rightarrow> int \<Rightarrow> real \<Rightarrow> int \<times> 'h"
  uninit :: real

text \<open>
  What the library does to the outside: calls of \<^verbatim>\<open>sensors_write_proc\<close> (whatever
  they return) and of \<^verbatim>\<open>sensors_parse_error\<close>, recorded in the order they happen.
\<close>

datatype event =
  EvWrite sensors_chip_name int real
  | EvParseError string int

record 'h world =
  hw :: 'h
  trace :: "event list"

definition sensors_write_proc ::
  "'h sensors_env \<Rightarrow> sensors_chip_name \<Rightarrow> int \<Rightarrow> real \<Rightarrow> 'h world \<Rightarrow> int \<times> 'h world" where
  "sensors_write_proc env name feature v w =
     (case write_proc env (hw w) name feature v of
        (rc, h') \<Rightarrow> (rc, \<lparr>hw = h', trace = trace w @ [EvWrite name feature v]\<rparr>))"

text \<open>
  Modelled from the spec: \<^verbatim>\<open>sensors_parse_error\<close> (\<^verbatim>\<open>error.h\<close>) is not part of the
  sources at hand. The spec has a failing directive "recorded" and "reported, not fatal"; the
  call is recorded with its message and line number and returns.
\<close>

definition sensors_parse_error :: "string \<Rightarrow> int \<Rightarrow> 'h world \<Rightarrow> 'h world" where
  "sensors_parse_error msg lineno w = w\<lparr>trace := trace w @ [EvParseError msg lineno]\<rparr>"

subsection \<open>Labels and ignore statements\<close>

fun labels_loop :: "sensors_label list \<Rightarrow> string \<Rightarrow> string option" where
  "labels_loop [] nm = None"
| "labels_loop (l # ls) nm =
     (if strcasecmp nm (label_name l) = 0 then Some (label_value l) else labels_loop ls nm)"

fun label_chips_loop :: "sensors_chip list \<Rightarrow> string \<Rightarrow> string option" where
  "label_chips_loop [] nm = None"
| "label_chips_loop (chip # chips) nm =
     (case labels_loop (labels chip) nm of
        Some v \<Rightarrow> Some v
      | None \<Rightarrow> label_chips_loop chips nm)"

text \<open>
  \<^verbatim>\<open>sensors_get_label\<close>: the return code and \<^verbatim>\<open>*result\<close>, which is set to the null
  pointer first. After the wildcard test the prefix is not null.
\<close>

definition sensors_get_label ::
  "'h sensors_env \<Rightarrow> sensors_chip_name \<Rightarrow> int \<Rightarrow> int \<times> string option" where
  "sensors_get_label env name feature =
     (if sensors_chip_name_has_wildcards name then (- SENSORS_ERR_WILDCARDS, None)
      else case sensors_lookup_feature_nr (sensors_chip_features_list env)
                  (the (cn_prefix name)) feature of
        None \<Rightarrow> (- SENSORS_ERR_NO_ENTRY, None)
      | Some featureptr \<Rightarrow>
          (case label_chips_loop (config_chips_after (sensors_config_chips env) name None)
                  (fd_name (data featureptr)) of
             Some v \<Rightarrow> (0, Some v)
           | None \<Rightarrow> (0, Some (fd_name (data featureptr)))))"

definition alt_matches :: "sensors_chip_feature option \<Rightarrow> string \<Rightarrow> bool" where
  "alt_matches alt nm =
     (case alt of None \<Rightarrow> False | Some a \<Rightarrow> strcasecmp (fd_name (data a)) nm = 0)"

text \<open>
  The loops of \<^verbatim>\<open>sensors_get_ignored\<close>: \<open>Inl r\<close> when the function returns \<open>r\<close> from
  inside the loop, \<open>Inr res\<close> when the loop ends with the local \<^verbatim>\<open>res\<close>.
\<close>

fun ignores_loop ::
  "sensors_ignore list \<Rightarrow> string \<Rightarrow> sensors_chip_feature option \<Rightarrow> int \<Rightarrow> int + int" where
  "ignores_loop [] nm alt res = Inr res"
| "ignores_loop (ig # igs) nm alt res =
     (if strcasecmp nm (ignore_name ig) = 0 then Inl 0
      else if alt_matches alt (ignore_name ig) then ignores_loop igs nm alt 0
      else ignores_loop igs nm alt res)"

fun ignore_chips_loop ::
  "sensors_chip list \<Rightarrow> string \<Rightarrow> sensors_chip_feature option \<Rightarrow> int \<Rightarrow> int" where
  "ignore_chips_loop [] nm alt res = res"
| "ignore_chips_loop (chip # chips) nm alt res =
     (case ignores_loop (ignores chip) nm alt res of
        Inl r \<Rightarrow> r
      | Inr res' \<Rightarrow> ignore_chips_loop chips nm alt res')"

text \<open>\<^verbatim>\<open>sensors_get_ignored\<close>: 1 is valid (visible), 0 is ignored, negative an error.\<close>

definition sensors_get_ignored :: "'h sensors_env \<Rightarrow> sensors_chip_name \<Rightarrow> int \<Rightarrow> int" where
  "sensors_get_ignored env name feature =
     (if sensors_chip_name_has_wildcards name then - SENSORS_ERR_WILDCARDS
      else case sensors_lookup_feature_nr (sensors_chip_features_list env)
                  (the (cn_prefix name)) feature of
        None \<Rightarrow> - SENSORS_ERR_NO_ENTRY
      | Some featureptr \<Rightarrow>
          (case fd_mapping (data featureptr) of
             None \<Rightarrow>
               ignore_chips_loop (config_chips_after (sensors_config_chips env) name None)
                 (fd_name (data featureptr)) None 1
           | Some m \<Rightarrow>
               (case sensors_lookup_feature_nr (sensors_chip_features_list env)
                       (the (cn_prefix name)) m of
                  None \<Rightarrow> - SENSORS_ERR_NO_ENTRY
                | Some alt_featureptr \<Rightarrow>
                    ignore_chips_loop (config_chips_after (sensors_config_chips env) name None)
                      (fd_name (data featureptr)) (Some alt_featureptr) 1)))"

subsection \<open>Expressions\<close>

text \<open>
  The \<^verbatim>\<open>switch\<close> of \<^verbatim>\<open>sensors_eval_expr\<close>: the return code and \<^verbatim>\<open>*result\<close>, whose
  previous content is the last argument.
\<close>

fun eval_op :: "sensors_operation \<Rightarrow> real \<Rightarrow> real \<Rightarrow> real \<Rightarrow> int \<times> real" where
  "eval_op sensors_add res1 res2 result = (0, res1 + res2)"
| "eval_op sensors_sub res1 res2 result = (0, res1 - res2)"
| "eval_op sensors_multiply res1 res2 result = (0, res1 * res2)"
| "eval_op sensors_divide res1 res2 result =
     (if res2 = 0 then (- SENSORS_ERR_DIV_ZERO, result) else (0, res1 / res2))"
| "eval_op sensors_negate res1 res2 result = (0, - res1)"
| "eval_op sensors_exp res1 res2 result = (0, exp res1)"
| "eval_op sensors_log res1 res2 result =
     (if res1 < 0 then (- SENSORS_ERR_DIV_ZERO, result) else (0, ln res1))"

text \<open>
  \<^verbatim>\<open>sensors_eval_expr\<close>, with the call of \<^verbatim>\<open>sensors_get_feature\<close> for this chip as the
  parameter \<open>getf\<close>. The result is the return code and \<^verbatim>\<open>*result\<close>; the last argument is
  the content of \<^verbatim>\<open>*result\<close> before the call. \<open>None\<close> means that the C function has no
  defined result: \<open>getf\<close> has none, or \<^verbatim>\<open>strcasecmp\<close> is handed a null prefix.
\<close>

fun eval_expr_with ::
  "(int \<Rightarrow> real \<Rightarrow> (int \<times> real) option) \<Rightarrow> sensors_chip_features list \<Rightarrow> real \<Rightarrow>
   sensors_chip_name \<Rightarrow> sensors_expr \<Rightarrow> real \<Rightarrow> real \<Rightarrow> (int \<times> real) option" where
  "eval_expr_with getf cat ui chipname (Kind_val v) val result = Some (0, v)"
| "eval_expr_with getf cat ui chipname Kind_source val result = Some (0, val)"
| "eval_expr_with getf cat ui chipname (Kind_var var) val result =
     (case cn_prefix chipname of
        None \<Rightarrow> None
      | Some pfx \<Rightarrow>
          (case sensors_lookup_feature_name cat pfx var of
             None \<Rightarrow> Some (SENSORS_ERR_NO_ENTRY, result)
           | Some feature \<Rightarrow>
               (case getf (fd_number (data feature)) result of
                  None \<Rightarrow> None
                | Some (res, result') \<Rightarrow>
                    if res = 0 then Some (res, result') else Some (0, result'))))"
| "eval_expr_with getf cat ui chipname (Kind_sub op sub1 None) val result =
     (case eval_expr_with getf cat ui chipname sub1 val ui of
        None \<Rightarrow> None
      | Some (res, res1) \<Rightarrow>
          if res \<noteq> 0 then Some (res, result) else Some (eval_op op res1 ui result))"
| "eval_expr_with getf cat ui chipname (Kind_sub op sub1 (Some sub2)) val result =
     (case eval_expr_with getf cat ui chipname sub1 val ui of
        None \<Rightarrow> None
      | Some (res, res1) \<Rightarrow>
          if res \<noteq> 0 then Some (res, result)
          else (case eval_expr_with getf cat ui chipname sub2 val ui of
                  None \<Rightarrow> None
                | Some (res', res2) \<Rightarrow>
                    if res' \<noteq> 0 then Some (res', result)
                    else Some (eval_op op res1 res2 result)))"

subsection \<open>Reading and writing a feature\<close>

text \<open>
  The loops over \<^verbatim>\<open>chip->computes\<close>, on the locals \<^verbatim>\<open>expr\<close> (\<open>None\<close> the null
  pointer) and \<^verbatim>\<open>final_expr\<close>. The condition \<^verbatim>\<open>!final_expr\<close> is tested before each
  directive, the condition \<^verbatim>\<open>!expr\<close> before each configuration entry.
\<close>

fun computes_from_loop ::
  "sensors_compute list \<Rightarrow> string \<Rightarrow> sensors_chip_feature option \<Rightarrow>
   sensors_expr option \<times> bool \<Rightarrow> sensors_expr option \<times> bool" where
  "computes_from_loop [] nm alt st = st"
| "computes_from_loop (c # cs) nm alt (expr, final_expr) =
     (if final_expr then (expr, final_expr)
      else if strcasecmp nm (compute_name c) = 0
        then computes_from_loop cs nm alt (Some (from_proc c), True)
      else if alt_matches alt (compute_name c)
        then computes_from_loop cs nm alt (Some (from_proc c), final_expr)
      else computes_from_loop cs nm alt (expr, final_expr))"

fun from_chips_loop ::
  "sensors_chip list \<Rightarrow> string \<Rightarrow> sensors_chip_feature option \<Rightarrow>
   sensors_expr option \<times> bool \<Rightarrow> sensors_expr option \<times> bool" where
  "from_chips_loop [] nm alt st = st"
| "from_chips_loop (chip # chips) nm alt (expr, final_expr) =
     (if expr \<noteq> None then (expr, final_expr)
      else from_chips_loop chips nm alt
             (computes_from_loop (computes chip) nm alt (expr, final_expr)))"

text \<open>
  In \<^verbatim>\<open>sensors_set_feature\<close> a match on the main name takes
  \<^verbatim>\<open>chip->computes->to_proc\<close>, the expression of the first directive of the entry (the
  argument \<open>c0\<close>), a match on the alternate name takes \<^verbatim>\<open>chip->computes[i].to_proc\<close>.
\<close>

fun computes_to_loop ::
  "sensors_compute \<Rightarrow> sensors_compute list \<Rightarrow> string \<Rightarrow> sensors_chip_feature option \<Rightarrow>
   sensors_expr option \<times> bool \<Rightarrow> sensors_expr option \<times> bool" where
  "computes_to_loop c0 [] nm alt st = st"
| "computes_to_loop c0 (c # cs) nm alt (expr, final_expr) =
     (if final_expr then (expr, final_expr)
      else if strcasecmp nm (compute_name c) = 0
        then computes_to_loop c0 cs nm alt (Some (to_proc c0), True)
      else if alt_matches alt (compute_name c)
        then computes_to_loop c0 cs nm alt (Some (to_proc c), final_expr)
      else computes_to_loop c0 cs nm alt (expr, final_expr))"

definition computes_to_chip ::
  "sensors_chip \<Rightarrow> string \<Rightarrow> sensors_chip_feature option \<Rightarrow>
   sensors_expr option \<times> bool \<Rightarrow> sensors_expr option \<times> bool" where
  "computes_to_chip chip nm alt st =
     (case computes chip of
        [] \<Rightarrow> st
      | c0 # cs \<Rightarrow> computes_to_loop c0 (c0 # cs) nm alt st)"

fun to_chips_loop ::
  "sensors_chip list \<Rightarrow> string \<Rightarrow> sensors_chip_feature option \<Rightarrow>
   sensors_expr option \<times> bool \<Rightarrow> sensors_expr option \<times> bool" where
  "to_chips_loop [] nm alt st = st"
| "to_chips_loop (chip # chips) nm alt (expr, final_expr) =
     (if expr \<noteq> None then (expr, final_expr)
      else to_chips_loop chips nm alt (computes_to_chip chip nm alt (expr, final_expr)))"

text \<open>
  The part of \<^verbatim>\<open>sensors_get_feature\<close> after the two descriptors are known; \<open>eval\<close> is
  \<^verbatim>\<open>sensors_eval_expr\<close> for this chip.
\<close>

definition get_feature_tail ::
  "(sensors_expr \<Rightarrow> real \<Rightarrow> real \<Rightarrow> (int \<times> real) option) \<Rightarrow> 'h sensors_env \<Rightarrow> 'h world \<Rightarrow>
   sensors_chip_name \<Rightarrow> int \<Rightarrow> sensors_chip_feature \<Rightarrow> sensors_chip_feature option \<Rightarrow>
   real \<Rightarrow> (int \<times> real) option" where
  "get_feature_tail eval env w name feature main_feature alt_feature result =
     (if fd_mode (data main_feature) AND SENSORS_MODE_R = 0
      then Some (- SENSORS_ERR_ACCESS_R, result)
      else let expr = fst (from_chips_loop
                             (config_chips_after (sensors_config_chips env) name None)
                             (fd_name (data main_feature)) alt_feature (None, False))
        in case read_proc env (hw w) name feature of
          None \<Rightarrow> Some (- SENSORS_ERR_PROC, result)
        | Some val \<Rightarrow>
            (case expr of
               None \<Rightarrow> Some (0, val)
             | Some e \<Rightarrow>
                 (case eval e val result of
                    None \<Rightarrow> None
                  | Some (res, result') \<Rightarrow>
                      if res \<noteq> 0 then Some (res, result') else Some (0, result'))))"

definition get_feature_with ::
  "(sensors_expr \<Rightarrow> real \<Rightarrow> real \<Rightarrow> (int \<times> real) option) \<Rightarrow> 'h sensors_env \<Rightarrow> 'h world \<Rightarrow>
   sensors_chip_name \<Rightarrow> int \<Rightarrow> real \<Rightarrow> (int \<times> real) option" where
  "get_feature_with eval env w name feature result =
     (if sensors_chip_name_has_wildcards name then Some (- SENSORS_ERR_WILDCARDS, result)
      else case sensors_lookup_feature_nr (sensors_chip_features_list env)
                  (the (cn_prefix name)) feature of
        None \<Rightarrow> Some (- SENSORS_ERR_NO_ENTRY, result)
      | Some main_feature \<Rightarrow>
          (case fd_compute_mapping (data main_feature) of
             None \<Rightarrow> get_feature_tail eval env w name feature main_feature None result
           | Some m \<Rightarrow>
               (case sensors_lookup_feature_nr (sensors_chip_features_list env)
                       (the (cn_prefix name)) m of
                  None \<Rightarrow> Some (- SENSORS_ERR_NO_ENTRY, result)
                | Some alt_feature \<Rightarrow>
                    get_feature_tail eval env w name feature main_feature
                      (Some alt_feature) result)))"

text \<open>
  \<^verbatim>\<open>sensors_get_feature\<close> and \<^verbatim>\<open>sensors_eval_expr\<close> call each other, and a
  configuration whose expressions refer to each other makes the C recursion unbounded. The
  first argument bounds the depth of the calls of \<^verbatim>\<open>sensors_get_feature\<close> made from
  variable nodes; \<open>None\<close> is returned when the bound is exceeded.
\<close>

primrec sensors_get_feature ::
  "nat \<Rightarrow> 'h sensors_env \<Rightarrow> 'h world \<Rightarrow> sensors_chip_name \<Rightarrow> int \<Rightarrow> real \<Rightarrow>
   (int \<times> real) option" where
  "sensors_get_feature 0 env w name =
     get_feature_with
       (eval_expr_with (\<lambda>feature result. None) (sensors_chip_features_list env) (uninit env) name)
       env w name"
| "sensors_get_feature (Suc n) env w name =
     get_feature_with
       (eval_expr_with (sensors_get_feature n env w name)
          (sensors_chip_features_list env) (uninit env) name)
       env w name"

definition sensors_eval_expr ::
  "nat \<Rightarrow> 'h sensors_env \<Rightarrow> 'h world \<Rightarrow> sensors_chip_name \<Rightarrow> sensors_expr \<Rightarrow> real \<Rightarrow> real \<Rightarrow>
   (int \<times> real) option" where
  "sensors_eval_expr n env w chipname =
     eval_expr_with
       (case n of 0 \<Rightarrow> (\<lambda>feature result. None) | Suc m \<Rightarrow> sensors_get_feature m env w chipname)
       (sensors_chip_features_list env) (uninit env) chipname"

text \<open>\<^verbatim>\<open>sensors_set_feature\<close>: the return code and the world after the call.\<close>

definition set_feature_tail ::
  "nat \<Rightarrow> 'h sensors_env \<Rightarrow> sensors_chip_name \<Rightarrow> int \<Rightarrow> real \<Rightarrow> sensors_chip_feature \<Rightarrow>
   sensors_chip_feature option \<Rightarrow> 'h world \<Rightarrow> (int \<times> 'h world) option" where
  "set_feature_tail n env name feature v main_feature alt_feature w =
     (if fd_mode (data main_feature) AND SENSORS_MODE_W = 0
      then Some (- SENSORS_ERR_ACCESS_W, w)
      else case fst (to_chips_loop (config_chips_after (sensors_config_chips env) name None)
                       (fd_name (data main_feature)) alt_feature (None, False)) of
        None \<Rightarrow>
          (case sensors_write_proc env name feature v w of
             (rc, w') \<Rightarrow> if rc \<noteq> 0 then Some (- SENSORS_ERR_PROC, w') else Some (0, w'))
      | Some expr \<Rightarrow>
          (case sensors_eval_expr n env w name expr v v of
             None \<Rightarrow> None
           | Some (res, to_write) \<Rightarrow>
               if res \<noteq> 0 then Some (res, w)
               else (case sensors_write_proc env name feature to_write w of
                       (rc, w') \<Rightarrow>
                         if rc \<noteq> 0 then Some (- SENSORS_ERR_PROC, w') else Some (0, w'))))"

definition sensors_set_feature ::
  "nat \<Rightarrow> 'h sensors_env \<Rightarrow> sensors_chip_name \<Rightarrow> int \<Rightarrow> real \<Rightarrow> 'h world \<Rightarrow>
   (int \<times> 'h world) option" where
  "sensors_set_feature n env name feature v w =
     (if sensors_chip_name_has_wildcards name then Some (- SENSORS_ERR_WILDCARDS, w)
      else case sensors_lookup_feature_nr (sensors_chip_features_list env)
                  (the (cn_prefix name)) feature of
        None \<Rightarrow> Some (- SENSORS_ERR_NO_ENTRY, w)
      | Some main_feature \<Rightarrow>
          (case fd_compute_mapping (data main_feature) of
             None \<Rightarrow> set_feature_tail n env name feature v main_feature None w
           | Some m \<Rightarrow>
               (case sensors_lookup_feature_nr (sensors_chip_features_list env)
                       (the (cn_prefix name)) m of
                  None \<Rightarrow> Some (- SENSORS_ERR_NO_ENTRY, w)
                | Some alt_feature \<Rightarrow>
                    set_feature_tail n env name feature v main_feature (Some alt_feature) w)))"

subsection \<open>Executing the set statements\<close>

text \<open>
  One turn of the inner loop of \<^verbatim>\<open>sensors_do_this_chip_sets\<close>, on the locals
  \<^verbatim>\<open>err\<close> and \<^verbatim>\<open>feature_list\<close> and the world. \<^verbatim>\<open>sensors_add_array_el\<close>
  (\<^verbatim>\<open>general.h\<close>) appends the number to the list. The local \<^verbatim>\<open>value\<close> is not
  assigned before its address is handed to \<^verbatim>\<open>sensors_eval_expr\<close>.
\<close>

definition do_set ::
  "nat \<Rightarrow> 'h sensors_env \<Rightarrow> sensors_chip_name \<Rightarrow> sensors_set \<Rightarrow>
   int \<times> int list \<times> 'h world \<Rightarrow> (int \<times> int list \<times> 'h world) option" where
  "do_set n env name s st =
     (case st of (err, feature_list, w) \<Rightarrow>
        (case cn_prefix name of
           None \<Rightarrow> None
         | Some pfx \<Rightarrow>
             (case sensors_lookup_feature_name (sensors_chip_features_list env) pfx (set_name s) of
                None \<Rightarrow>
                  Some (SENSORS_ERR_NO_ENTRY, feature_list,
                        sensors_parse_error ''Unknown feature name'' (set_lineno s) w)
              | Some feature \<Rightarrow>
                  (let feature_nr = fd_number (data feature) in
                   if feature_nr \<in> set feature_list then Some (err, feature_list, w)
                   else
                     (case sensors_eval_expr n env w name (set_value s) 0 (uninit env) of
                        None \<Rightarrow> None
                      | Some (res, v) \<Rightarrow>
                          if res \<noteq> 0
                          then Some (res, feature_list @ [feature_nr],
                                     sensors_parse_error ''Error parsing expression''
                                       (set_lineno s) w)
                          else
                            (case sensors_set_feature n env name feature_nr v w of
                               None \<Rightarrow> None
                             | Some (res', w') \<Rightarrow>
                                 if res' \<noteq> 0
                                 then Some (res', feature_list @ [feature_nr],
                                            sensors_parse_error ''Failed to set feature''
                                              (set_lineno s) w')
                                 else Some (err, feature_list @ [feature_nr], w')))))))"

fun sets_loop ::
  "nat \<Rightarrow> 'h sensors_env \<Rightarrow> sensors_chip_name \<Rightarrow> sensors_set list \<Rightarrow>
   int \<times> int list \<times> 'h world \<Rightarrow> (int \<times> int list \<times> 'h world) option" where
  "sets_loop n env name [] st = Some st"
| "sets_loop n env name (s # ss) st =
     (case do_set n env name s st of
        None \<Rightarrow> None
      | Some st' \<Rightarrow> sets_loop n env name ss st')"

fun set_chips_loop ::
  "nat \<Rightarrow> 'h sensors_env \<Rightarrow> sensors_chip_name \<Rightarrow> sensors_chip list \<Rightarrow>
   int \<times> int list \<times> 'h world \<Rightarrow> (int \<times> int list \<times> 'h world) option" where
  "set_chips_loop n env name [] st = Some st"
| "set_chips_loop n env name (chip # chips) st =
     (case sets_loop n env name (sets chip) st of
        None \<Rightarrow> None
      | Some st' \<Rightarrow> set_chips_loop n env name chips st')"

definition sensors_do_this_chip_sets ::
  "nat \<Rightarrow> 'h sensors_env \<Rightarrow> sensors_chip_name \<Rightarrow> 'h world \<Rightarrow> (int \<times> 'h world) option" where
  "sensors_do_this_chip_sets n env name w =
     (case set_chips_loop n env name (config_chips_after (sensors_config_chips env) name None)
             (0, [], w) of
        None \<Rightarrow> None
      | Some (err, feature_list, w') \<Rightarrow> Some (err, w'))"

text \<open>
  \<^verbatim>\<open>sensors_get_detected_chips\<close>: the chip at \<^verbatim>\<open>*nr\<close>, if any, and the new
  \<^verbatim>\<open>*nr\<close>.
\<close>

definition sensors_get_detected_chips ::
  "'h sensors_env \<Rightarrow> nat \<Rightarrow> sensors_chip_name option \<times> nat" where
  "sensors_get_detected_chips env nr =
     (if nr \<ge> length (sensors_proc_chips env) then None else Some (sensors_proc_chips env ! nr),
      nr + 1)"

function detected_loop ::
  "nat \<Rightarrow> 'h sensors_env \<Rightarrow> sensors_chip_name \<Rightarrow> nat \<Rightarrow> int \<times> 'h world \<Rightarrow>
   (int \<times> 'h world) option" where
  "detected_loop n env name nr (res, w) =
     (case sensors_get_detected_chips env nr of
        (None, nr') \<Rightarrow> Some (res, w)
      | (Some found_name, nr') \<Rightarrow>
          if sensors_match_chip name found_name
          then (case sensors_do_this_chip_sets n env found_name w of
                  None \<Rightarrow> None
                | Some (this_res, w') \<Rightarrow>
                    detected_loop n env name nr' (if res = 0 then this_res else res, w'))
          else detected_loop n env name nr' (res, w))"
  by pat_completeness auto
termination
  by (relation "measure (\<lambda>(n, env, name, nr, st). length (sensors_proc_chips env) - nr)")
     (auto simp: sensors_get_detected_chips_def split: if_splits)

declare detected_loop.simps [simp del]

definition sensors_do_chip_sets ::
  "nat \<Rightarrow> 'h sensors_env \<Rightarrow> sensors_chip_name \<Rightarrow> 'h world \<Rightarrow> (int \<times> 'h world) option" where
  "sensors_do_chip_sets n env name w = detected_loop n env name 0 (0, w)"

definition sensors_do_all_sets :: "nat \<Rightarrow> 'h sensors_env \<Rightarrow> 'h world \<Rightarrow> (int \<times> 'h world) option" where
  "sensors_do_all_sets n env w =
     sensors_do_chip_sets n env \<lparr>cn_prefix = None, cn_bus = BUS_ANY, cn_addr = None\<rparr> w"

section \<open>Definitions used by the claims\<close>

subsection \<open>Notions of the specification\<close>

text \<open>
  The spec's wildcard pattern: "a pattern with any ANY component", its bus selector having
  the six alternatives ISA, PCI, DUMMY, AnyI2C, I2C(id) and ANY.
\<close>

definition spec_wildcard_pattern :: "sensors_chip_name \<Rightarrow> bool" where
  "spec_wildcard_pattern chip =
     (cn_prefix chip = None \<or> cn_bus chip = BUS_ANY \<or> cn_addr chip = None)"


text \<open>
  The search of \<^verbatim>\<open>sensors_get_feature\<close> for a compute statement, stated declaratively.
  Within one configuration entry the first statement named for the feature itself decides;
  without one, the last statement named for the alternate feature does. Over the entries,
  in the order of the scan, the first entry with any such statement decides.
\<close>

definition entry_from_expr ::
  "sensors_compute list \<Rightarrow> string \<Rightarrow> sensors_chip_feature option \<Rightarrow> sensors_expr option" where
  "entry_from_expr cs nm alt =
     (case List.find (\<lambda>c. strcasecmp nm (compute_name c) = 0) cs of
        Some c \<Rightarrow> Some (from_proc c)
      | None \<Rightarrow>
          (case filter (\<lambda>c. alt_matches alt (compute_name c)) cs of
             [] \<Rightarrow> None
           | a # as \<Rightarrow> Some (from_proc (last (a # as)))))"

fun first_from_expr ::
  "sensors_chip list \<Rightarrow> string \<Rightarrow> sensors_chip_feature option \<Rightarrow> sensors_expr option" where
  "first_from_expr [] nm alt = None"
| "first_from_expr (chip # chips) nm alt =
     (case entry_from_expr (computes chip) nm alt of
        Some e \<Rightarrow> Some e
      | None \<Rightarrow> first_from_expr chips nm alt)"

text \<open>The chip and feature number of each call of \<^verbatim>\<open>sensors_write_proc\<close> in a trace.\<close>

fun writes_of :: "event list \<Rightarrow> (sensors_chip_name \<times> int) list" where
  "writes_of [] = []"
| "writes_of (EvWrite c f v # evs) = (c, f) # writes_of evs"
| "writes_of (EvParseError msg lineno # evs) = writes_of evs"

text \<open>
  The set statements that \<^verbatim>\<open>sensors_do_this_chip_sets\<close> goes through for a chip, in the
  order of the two nested loops, and the detected chips that \<^verbatim>\<open>sensors_do_chip_sets\<close>
  handles for a chip name.
\<close>

definition all_sets :: "'h sensors_env \<Rightarrow> sensors_chip_name \<Rightarrow> sensors_set list" where
  "all_sets env name =
     concat (map sets (config_chips_after (sensors_config_chips env) name None))"

definition matching_detected :: "'h sensors_env \<Rightarrow> sensors_chip_name \<Rightarrow> sensors_chip_name list" where
  "matching_detected env name = filter (sensors_match_chip name) (sensors_proc_chips env)"

text \<open>
  The error code of each set statement on its own (0 when it does not fail), the statement
  being run in the state that the statements before it have left; and the return code of
  \<^verbatim>\<open>sensors_do_this_chip_sets\<close> for each chip of a list, the chips being handled one
  after the other.
\<close>

fun set_statuses ::
  "nat \<Rightarrow> 'h sensors_env \<Rightarrow> sensors_chip_name \<Rightarrow> sensors_set list \<Rightarrow> int list \<Rightarrow> 'h world \<Rightarrow>
   int list" where
  "set_statuses n env name [] fl w = []"
| "set_statuses n env name (s # ss) fl w =
     (case do_set n env name s (0, fl, w) of
        None \<Rightarrow> []
      | Some (e, fl', w') \<Rightarrow> e # set_statuses n env name ss fl' w')"

fun chip_results ::
  "nat \<Rightarrow> 'h sensors_env \<Rightarrow> sensors_chip_name list \<Rightarrow> 'h world \<Rightarrow> int list" where
  "chip_results n env [] w = []"
| "chip_results n env (c # cs) w =
     (case sensors_do_this_chip_sets n env c w of
        None \<Rightarrow> []
      | Some (r, w') \<Rightarrow> r # chip_results n env cs w')"

definition first_error :: "int list \<Rightarrow> int" where
  "first_error rs = (case filter (\<lambda>e. e \<noteq> 0) rs of [] \<Rightarrow> 0 | e # es \<Rightarrow> e)"

definition last_error :: "int list \<Rightarrow> int" where
  "last_error rs = (case filter (\<lambda>e. e \<noteq> 0) rs of [] \<Rightarrow> 0 | e # es \<Rightarrow> last (e # es))"

text \<open>
  Expressions without variable nodes, and configurations all of whose expressions are such:
  on these the mutual recursion of \<^verbatim>\<open>sensors_eval_expr\<close> and
  \<^verbatim>\<open>sensors_get_feature\<close> does not occur.
\<close>

fun var_free :: "sensors_expr \<Rightarrow> bool" where
  "var_free (Kind_val v) = True"
| "var_free Kind_source = True"
| "var_free (Kind_var var) = False"
| "var_free (Kind_sub op sub1 None) = var_free sub1"
| "var_free (Kind_sub op sub1 (Some sub2)) = (var_free sub1 \<and> var_free sub2)"

definition config_var_free :: "'h sensors_env \<Rightarrow> bool" where
  "config_var_free env =
     (\<forall>chip\<in>set (sensors_config_chips env).
        (\<forall>s\<in>set (sets chip). var_free (set_value s))
        \<and> (\<forall>c\<in>set (computes chip). var_free (from_proc c) \<and> var_free (to_proc c)))"

subsection \<open>Example data\<close>

definition mk_feature ::
  "int \<Rightarrow> string \<Rightarrow> int option \<Rightarrow> int option \<Rightarrow> int \<Rightarrow> sensors_chip_feature" where
  "mk_feature nr nm m cm md =
     \<lparr>data = \<lparr>fd_number = nr, fd_name = nm, fd_mapping = m, fd_compute_mapping = cm,
              fd_mode = md\<rparr>\<rparr>"

definition ex_chip :: sensors_chip_name where
  "ex_chip = \<lparr>cn_prefix = Some ''lm78'', cn_bus = BUS_ISA, cn_addr = Some 656\<rparr>"

definition ex_fit :: sensors_chip_name where
  "ex_fit = \<lparr>cn_prefix = Some ''LM78'', cn_bus = BUS_ANY, cn_addr = None\<rparr>"

definition ex_env ::
  "sensors_chip_feature list \<Rightarrow> sensors_chip list \<Rightarrow> unit sensors_env" where
  "ex_env fs cfg =
     \<lparr>sensors_chip_features_list = [\<lparr>cf_prefix = ''lm78'', cf_feature = fs\<rparr>],
      sensors_config_chips = cfg,
      sensors_proc_chips = [ex_chip],
      read_proc = (\<lambda>h c f. Some 10),
      write_proc = (\<lambda>h c f v. (0, h)),
      uninit = 0\<rparr>"

definition ex_world :: "unit world" where
  "ex_world = \<lparr>hw = (), trace = []\<rparr>"

definition ex6_env :: "unit sensors_env" where
  "ex6_env = ex_env [mk_feature 1 ''in0'' None None 3, mk_feature 2 ''in0_min'' (Some 1) (Some 1) 3]
     [\<lparr>fits = [ex_fit], labels = [], sets = [], computes = [],
       ignores = [\<lparr>ignore_name = ''IN0''\<rparr>]\<rparr>]"


definition ex5_env :: "unit sensors_env" where
  "ex5_env = ex_env [mk_feature 1 ''fan1'' None (Some 77) 3,
                     mk_feature 2 ''fan1_div'' (Some 77) None 3,
                     mk_feature 3 ''fan1_min'' (Some 1) None 3]
     [\<lparr>fits = [ex_fit], labels = [], sets = [], computes = [], ignores = []\<rparr>]"

text \<open>
  Two compute statements in one entry; the second is the one named for feature 1
  (\<^verbatim>\<open>in0\<close>).
\<close>

definition ex1_env :: "unit sensors_env" where
  "ex1_env = ex_env [mk_feature 1 ''in0'' None None 3]
     [\<lparr>fits = [ex_fit], labels = [], sets = [],
       computes =
         [\<lparr>compute_name = ''temp1'',
           from_proc = Kind_sub sensors_divide Kind_source (Some (Kind_val 2)),
           to_proc = Kind_sub sensors_multiply Kind_source (Some (Kind_val 2))\<rparr>,
          \<lparr>compute_name = ''in0'',
           from_proc = Kind_sub sensors_multiply Kind_source (Some (Kind_val 10)),
           to_proc = Kind_sub sensors_divide Kind_source (Some (Kind_val 10))\<rparr>],
       ignores = []\<rparr>]"

text \<open>Feature 2 (\<^verbatim>\<open>in1\<close>) can be written but not read.\<close>

definition ex2_env :: "unit sensors_env" where
  "ex2_env = ex_env [mk_feature 1 ''in0'' None None 3, mk_feature 2 ''in1'' None None 2]
     [\<lparr>fits = [ex_fit], labels = [], sets = [], computes = [], ignores = []\<rparr>]"

text \<open>
  Feature 2 (\<^verbatim>\<open>temp1_max\<close>) shares the compute statements of feature 1 (\<^verbatim>\<open>temp1\<close>).
  The entry declared first names \<^verbatim>\<open>temp1_max\<close> itself, the entry declared last names
  \<^verbatim>\<open>temp1\<close>.
\<close>

definition ex4_main_entry :: sensors_chip where
  "ex4_main_entry =
     \<lparr>fits = [ex_fit], labels = [], sets = [],
      computes = [\<lparr>compute_name = ''temp1_max'',
                   from_proc = Kind_sub sensors_multiply Kind_source (Some (Kind_val 2)),
                   to_proc = Kind_sub sensors_divide Kind_source (Some (Kind_val 2))\<rparr>],
      ignores = []\<rparr>"

definition ex4_alt_entry :: sensors_chip where
  "ex4_alt_entry =
     \<lparr>fits = [ex_chip], labels = [], sets = [],
      computes = [\<lparr>compute_name = ''temp1'',
                   from_proc = Kind_sub sensors_divide Kind_source (Some (Kind_val 10)),
                   to_proc = Kind_sub sensors_multiply Kind_source (Some (Kind_val 10))\<rparr>],
      ignores = []\<rparr>"

definition ex4_env :: "unit sensors_env" where
  "ex4_env = ex_env [mk_feature 1 ''temp1'' None None 3, mk_feature 2 ''temp1_max'' (Some 1) (Some 1) 3]
     [ex4_main_entry, ex4_alt_entry]"

text \<open>
  Three set statements in one entry: an unknown feature name, a division by zero, and a
  statement that can be carried out.
\<close>

definition ex3_env :: "unit sensors_env" where
  "ex3_env = ex_env [mk_feature 1 ''in0'' None None 3, mk_feature 2 ''in1'' None None 3]
     [\<lparr>fits = [ex_fit], labels = [],
       sets = [\<lparr>set_name = ''in9'', set_value = Kind_val 1, set_lineno = 1\<rparr>,
               \<lparr>set_name = ''in0'',
                set_value = Kind_sub sensors_divide (Kind_val 1) (Some (Kind_val 0)),
                set_lineno = 2\<rparr>,
               \<lparr>set_name = ''in1'', set_value = Kind_val 3, set_lineno = 3\<rparr>],
       computes = [], ignores = []\<rparr>]"

text \<open>Three entries, each with a set statement for feature 2 (\<^verbatim>\<open>in0_min\<close>).\<close>

definition ex8_env :: "unit sensors_env" where
  "ex8_env = ex_env [mk_feature 1 ''in0'' None None 3, mk_feature 2 ''in0_min'' (Some 1) (Some 1) 3]
     [\<lparr>fits = [ex_fit], labels = [],
       sets = [\<lparr>set_name = ''in0_min'', set_value = Kind_val 1, set_lineno = 1\<rparr>],
       computes = [], ignores = []\<rparr>,
      \<lparr>fits = [ex_fit], labels = [],
       sets = [\<lparr>set_name = ''in0_min'', set_value = Kind_val 2, set_lineno = 2\<rparr>],
       computes = [], ignores = []\<rparr>,
      \<lparr>fits = [ex_chip], labels = [],
       sets = [\<lparr>set_name = ''IN0_MIN'', set_value = Kind_val 3, set_lineno = 3\<rparr>],
       computes = [], ignores = []\<rparr>]"

text \<open>
  Two set statements for feature 2: the one scanned first divides by zero, the other could
  be carried out.
\<close>

definition ex10_bad :: sensors_set where
  "ex10_bad = \<lparr>set_name = ''in0_min'',
               set_value = Kind_sub sensors_divide (Kind_val 1) (Some (Kind_val 0)),
               set_lineno = 2\<rparr>"

definition ex10_good :: sensors_set where
  "ex10_good = \<lparr>set_name = ''in0_min'', set_value = Kind_val 7, set_lineno = 1\<rparr>"

definition ex10_env :: "unit sensors_env" where
  "ex10_env = ex_env [mk_feature 1 ''in0'' None None 3, mk_feature 2 ''in0_min'' (Some 1) (Some 1) 3]
     [\<lparr>fits = [ex_fit], labels = [], sets = [ex10_good], computes = [], ignores = []\<rparr>,
      \<lparr>fits = [ex_chip], labels = [], sets = [ex10_bad], computes = [], ignores = []\<rparr>]"

section \<open>Auxiliary lemmas\<close>

text \<open>The lower-case letter of a capital has its code 32 higher.\<close>

lemma tolower_add_32:
  "tolower c = (if 65 \<le> (of_char c :: nat) \<and> (of_char c :: nat) \<le> 90
                then char_of (of_char c + 32 :: nat) else c)"
  by (cases c) (auto simp: tolower_def char_of_def bit_Suc_0_iff)

lemmas ex_defs = mk_feature_def ex_chip_def ex_fit_def ex_env_def ex_world_def
lemmas err_defs = SENSORS_ERR_WILDCARDS_def SENSORS_ERR_NO_ENTRY_def SENSORS_ERR_PROC_def
  SENSORS_ERR_DIV_ZERO_def SENSORS_ERR_ACCESS_W_def SENSORS_ERR_ACCESS_R_def

lemma ignores_loop_char:
  "ignores_loop igs nm alt res =
     (if \<exists>ig\<in>set igs. strcasecmp nm (ignore_name ig) = 0 then Inl 0
      else if \<exists>ig\<in>set igs. alt_matches alt (ignore_name ig) then Inr 0
      else Inr res)"
  by (induction igs arbitrary: res) auto

lemma ignore_chips_loop_char:
  "ignore_chips_loop chips nm alt res =
     (if \<exists>chip\<in>set chips. \<exists>ig\<in>set (ignores chip).
           strcasecmp nm (ignore_name ig) = 0 \<or> alt_matches alt (ignore_name ig)
      then 0 else res)"
proof (induction chips arbitrary: res)
  case Nil
  show ?case by simp
next
  case (Cons chip chips)
  show ?case
    by (simp add: ignores_loop_char Cons.IH)
qed

lemma config_chips_after_Some:
  "n \<le> length cfg \<Longrightarrow>
   config_chips_after cfg name (Some n) =
     filter (\<lambda>chip. fits_match (fits chip) name) (rev (take n cfg))"
proof (induction n)
  case 0
  show ?case
    by (simp add: config_chips_after.simps [of cfg name "Some 0"]
        sensors_for_all_config_chips_def)
next
  case (Suc n)
  then have n: "n < length cfg" and IH: "config_chips_after cfg name (Some n) =
     filter (\<lambda>chip. fits_match (fits chip) name) (rev (take n cfg))"
    by simp_all
  show ?case
  proof (cases "fits_match (fits (cfg ! n)) name")
    case True
    then show ?thesis
      using n IH
      by (simp add: config_chips_after.simps [of cfg name "Some (Suc n)"]
          sensors_for_all_config_chips_def take_Suc_conv_app_nth)
  next
    case False
    then have "config_chips_after cfg name (Some (Suc n)) = config_chips_after cfg name (Some n)"
      by (simp add: config_chips_after.simps [of cfg name "Some (Suc n)"]
          config_chips_after.simps [of cfg name "Some n"]
          sensors_for_all_config_chips_def)
    then show ?thesis
      using n IH False by (simp add: take_Suc_conv_app_nth)
  qed
qed

lemma config_chips_after_None:
  "config_chips_after cfg name None = filter (\<lambda>chip. fits_match (fits chip) name) (rev cfg)"
proof -
  have "config_chips_after cfg name None = config_chips_after cfg name (Some (length cfg))"
    by (simp add: config_chips_after.simps [of cfg name None]
        config_chips_after.simps [of cfg name "Some (length cfg)"]
        sensors_for_all_config_chips_def)
  then show ?thesis by (simp add: config_chips_after_Some)
qed

lemma sensors_get_feature_unfold:
  "sensors_get_feature n env w name =
     get_feature_with (sensors_eval_expr n env w name) env w name"
  by (cases n) (simp_all add: sensors_eval_expr_def)

lemma eval_op_codes:
  "eval_op op a b r = (res, r') \<Longrightarrow> res = 0 \<or> res = - SENSORS_ERR_DIV_ZERO"
  by (cases op) (auto split: if_splits)

text \<open>The return codes of the evaluator.\<close>

lemma eval_expr_with_codes:
  "eval_expr_with getf cat ui c e val r = Some (res, r') \<Longrightarrow>
   res = 0 \<or> res = SENSORS_ERR_NO_ENTRY \<or> res = - SENSORS_ERR_DIV_ZERO"
proof (induction getf cat ui c e val r arbitrary: res r' rule: eval_expr_with.induct)
  case (4 getf cat ui chipname op sub1 val result)
  then show ?case
    by (auto split: option.splits if_splits prod.splits dest: eval_op_codes)
next
  case (5 getf cat ui chipname op sub1 sub2 val result)
  then show ?case
    by (auto split: option.splits if_splits prod.splits dest: eval_op_codes)
qed (auto split: option.splits if_splits)

lemma sensors_eval_expr_codes:
  "sensors_eval_expr n env w c e val r = Some (res, r') \<Longrightarrow>
   res = 0 \<or> res = SENSORS_ERR_NO_ENTRY \<or> res = - SENSORS_ERR_DIV_ZERO"
  unfolding sensors_eval_expr_def by (rule eval_expr_with_codes)

lemma get_feature_tail_code:
  "get_feature_tail (sensors_eval_expr n env w name) env w name feature mf alt r
     \<noteq> Some (- SENSORS_ERR_WILDCARDS, r')"
  by (auto simp: get_feature_tail_def Let_def err_defs
      split: option.splits if_splits dest!: sensors_eval_expr_codes)

lemma get_feature_concrete_code:
  "\<not> sensors_chip_name_has_wildcards name \<Longrightarrow>
   sensors_get_feature n env w name feature r \<noteq> Some (- SENSORS_ERR_WILDCARDS, r')"
  by (simp add: sensors_get_feature_unfold get_feature_with_def
      get_feature_tail_code [unfolded SENSORS_ERR_WILDCARDS_def] err_defs split: option.splits)

lemma set_feature_tail_code:
  "set_feature_tail n env name feature v mf alt w \<noteq> Some (- SENSORS_ERR_WILDCARDS, w')"
  by (auto simp: set_feature_tail_def err_defs
      split: option.splits if_splits prod.splits dest!: sensors_eval_expr_codes)

lemma set_feature_concrete_code:
  "\<not> sensors_chip_name_has_wildcards name \<Longrightarrow>
   sensors_set_feature n env name feature v w \<noteq> Some (- SENSORS_ERR_WILDCARDS, w')"
  by (simp add: sensors_set_feature_def
      set_feature_tail_code [unfolded SENSORS_ERR_WILDCARDS_def] err_defs split: option.splits)

text \<open>The search for a compute statement.\<close>

lemma computes_from_loop_final:
  "computes_from_loop cs nm alt (expr, True) = (expr, True)"
  by (cases cs) simp_all

lemma computes_from_loop_char:
  "computes_from_loop cs nm alt (expr, False) =
     (case List.find (\<lambda>c. strcasecmp nm (compute_name c) = 0) cs of
        Some c \<Rightarrow> (Some (from_proc c), True)
      | None \<Rightarrow>
          (case filter (\<lambda>c. alt_matches alt (compute_name c)) cs of
             [] \<Rightarrow> (expr, False)
           | a # as \<Rightarrow> (Some (from_proc (last (a # as))), False)))"
proof (induction cs arbitrary: expr)
  case Nil
  show ?case by simp
next
  case (Cons c cs)
  show ?case
    by (simp add: computes_from_loop_final Cons.IH split: option.splits list.splits)
qed

lemma computes_from_loop_entry:
  "fst (computes_from_loop cs nm alt (None, False)) = entry_from_expr cs nm alt"
  by (simp add: computes_from_loop_char entry_from_expr_def split: option.splits list.splits)

lemma computes_from_loop_None:
  "fst (computes_from_loop cs nm alt (None, False)) = None \<Longrightarrow>
   computes_from_loop cs nm alt (None, False) = (None, False)"
  by (simp add: computes_from_loop_char split: option.splits list.splits)

lemma from_chips_loop_found:
  "from_chips_loop chips nm alt (Some e, fin) = (Some e, fin)"
  by (cases chips) simp_all

lemma from_chips_loop_char:
  "fst (from_chips_loop chips nm alt (None, False)) = first_from_expr chips nm alt"
proof (induction chips)
  case Nil
  show ?case by simp
next
  case (Cons chip chips)
  show ?case
  proof (cases "entry_from_expr (computes chip) nm alt")
    case None
    then have "computes_from_loop (computes chip) nm alt (None, False) = (None, False)"
      by (simp add: computes_from_loop_None computes_from_loop_entry)
    then show ?thesis using None Cons.IH by simp
  next
    case (Some e)
    then obtain fin where "computes_from_loop (computes chip) nm alt (None, False) = (Some e, fin)"
      using computes_from_loop_entry [of "computes chip" nm alt]
      by (cases "computes_from_loop (computes chip) nm alt (None, False)") simp
    then show ?thesis using Some by (simp add: from_chips_loop_found)
  qed
qed

text \<open>The loops over the set statements.\<close>

lemma writes_of_append: "writes_of (xs @ ys) = writes_of xs @ writes_of ys"
  by (induction xs rule: writes_of.induct) simp_all

lemma sets_loop_append:
  "sets_loop n env name (xs @ ys) st =
     (case sets_loop n env name xs st of
        None \<Rightarrow> None
      | Some st' \<Rightarrow> sets_loop n env name ys st')"
  by (induction xs arbitrary: st) (simp_all split: option.splits)

lemma set_chips_loop_concat:
  "set_chips_loop n env name chips st = sets_loop n env name (concat (map sets chips)) st"
  by (induction chips arbitrary: st) (simp_all add: sets_loop_append split: option.splits)

lemma do_set_err:
  "do_set n env name s (err, fl, w) =
     (case do_set n env name s (0, fl, w) of
        None \<Rightarrow> None
      | Some (e, fl', w') \<Rightarrow> Some (if e \<noteq> 0 then e else err, fl', w'))"
  by (simp add: do_set_def Let_def SENSORS_ERR_NO_ENTRY_def split: option.splits prod.splits)

lemma sets_loop_statuses:
  "sets_loop n env name ss (err, fl, w) = Some (err', fl', w') \<Longrightarrow>
   length (set_statuses n env name ss fl w) = length ss
   \<and> err' = (case filter (\<lambda>e. e \<noteq> 0) (set_statuses n env name ss fl w) of
               [] \<Rightarrow> err
             | e # es \<Rightarrow> last (e # es))"
proof (induction ss arbitrary: err fl w)
  case Nil
  then show ?case by simp
next
  case (Cons s ss)
  from Cons.prems obtain err1 fl1 w1 where
    step: "do_set n env name s (err, fl, w) = Some (err1, fl1, w1)"
    and rest: "sets_loop n env name ss (err1, fl1, w1) = Some (err', fl', w')"
    by (auto split: option.splits)
  from step obtain e where
    st0: "do_set n env name s (0, fl, w) = Some (e, fl1, w1)"
    and err1: "err1 = (if e \<noteq> 0 then e else err)"
    by (subst (asm) do_set_err) (auto split: option.splits)
  from Cons.IH [OF rest] have
    len: "length (set_statuses n env name ss fl1 w1) = length ss"
    and res: "err' = (case filter (\<lambda>e. e \<noteq> 0) (set_statuses n env name ss fl1 w1) of
               [] \<Rightarrow> err1
             | e # es \<Rightarrow> last (e # es))"
    by simp_all
  show ?case
    using st0 err1 len res by (simp split: list.splits)
qed

lemma set_feature_trace:
  "sensors_set_feature n env name f v w = Some (rc, w') \<Longrightarrow>
   \<exists>evs. trace w' = trace w @ evs \<and> (writes_of evs = [] \<or> writes_of evs = [(name, f)])"
  by (auto simp: sensors_set_feature_def set_feature_tail_def sensors_write_proc_def
      split: option.splits if_splits prod.splits)

lemma do_set_trace:
  assumes "do_set n env name s (err, fl, w) = Some (err', fl', w')"
  shows "\<exists>evs. trace w' = trace w @ evs
           \<and> ((fl' = fl \<and> writes_of evs = [])
              \<or> (\<exists>f. f \<notin> set fl \<and> fl' = fl @ [f]
                    \<and> (writes_of evs = [] \<or> writes_of evs = [(name, f)])))"
proof -
  obtain pfx where pfx: "cn_prefix name = Some pfx"
    using assms by (auto simp: do_set_def Let_def split: option.splits)
  show ?thesis
  proof (cases "sensors_lookup_feature_name (sensors_chip_features_list env) pfx (set_name s)")
    case None
    then show ?thesis
      using assms pfx by (auto simp: do_set_def Let_def sensors_parse_error_def)
  next
    case (Some feature)
    show ?thesis
    proof (cases "fd_number (data feature) \<in> set fl")
      case True
      then show ?thesis
        using assms pfx Some by (auto simp: do_set_def Let_def)
    next
      case False
      from assms pfx Some False obtain res v where
        ev: "sensors_eval_expr n env w name (set_value s) 0 (uninit env) = Some (res, v)"
        by (auto simp: do_set_def Let_def split: option.splits)
      show ?thesis
      proof (cases "res = 0")
        case nz: False
        then show ?thesis
          using assms pfx Some False ev by (auto simp: do_set_def Let_def sensors_parse_error_def)
      next
        case True
        from assms pfx Some False ev True obtain res' w1 where
          sf: "sensors_set_feature n env name (fd_number (data feature)) v w = Some (res', w1)"
          and out: "fl' = fl @ [fd_number (data feature)]"
            "w' = (if res' \<noteq> 0
                   then sensors_parse_error ''Failed to set feature'' (set_lineno s) w1 else w1)"
          by (auto simp: do_set_def Let_def split: option.splits if_splits)
        from set_feature_trace [OF sf] obtain evs where
          evs: "trace w1 = trace w @ evs"
            "writes_of evs = [] \<or> writes_of evs = [(name, fd_number (data feature))]"
          by blast
        show ?thesis
        proof (cases "res' = 0")
          case True
          then show ?thesis using out evs False by auto
        next
          case rz: False
          then have "trace w' = trace w @ (evs @ [EvParseError ''Failed to set feature'' (set_lineno s)])"
            using out evs by (simp add: sensors_parse_error_def)
          moreover have "writes_of (evs @ [EvParseError ''Failed to set feature'' (set_lineno s)])
              = writes_of evs"
            by (simp add: writes_of_append)
          ultimately show ?thesis using out evs False by metis
        qed
      qed
    qed
  qed
qed

text \<open>
  The invariant of the loops: what is written is written to the chip at hand, to feature
  numbers that were not in the list before and are in it afterwards, and once each.
\<close>

lemma sets_loop_writes:
  "sets_loop n env name ss (err, fl, w) = Some (err', fl', w') \<Longrightarrow>
   \<exists>evs. trace w' = trace w @ evs \<and> distinct (writes_of evs) \<and> set fl \<subseteq> set fl'
     \<and> (\<forall>p\<in>set (writes_of evs). fst p = name \<and> snd p \<in> set fl' \<and> snd p \<notin> set fl)"
proof (induction ss arbitrary: err fl w)
  case Nil
  then show ?case by simp
next
  case (Cons s ss)
  from Cons.prems obtain err1 fl1 w1 where
    step: "do_set n env name s (err, fl, w) = Some (err1, fl1, w1)"
    and rest: "sets_loop n env name ss (err1, fl1, w1) = Some (err', fl', w')"
    by (auto split: option.splits)
  from do_set_trace [OF step] obtain evs1 where
    t1: "trace w1 = trace w @ evs1"
    and c1: "(fl1 = fl \<and> writes_of evs1 = [])
              \<or> (\<exists>f. f \<notin> set fl \<and> fl1 = fl @ [f]
                    \<and> (writes_of evs1 = [] \<or> writes_of evs1 = [(name, f)]))"
    by blast
  from Cons.IH [OF rest] obtain evs2 where
    t2: "trace w' = trace w1 @ evs2"
    and d2: "distinct (writes_of evs2)"
    and s2: "set fl1 \<subseteq> set fl'"
    and p2: "\<forall>p\<in>set (writes_of evs2). fst p = name \<and> snd p \<in> set fl' \<and> snd p \<notin> set fl1"
    by blast
  have sub: "set fl \<subseteq> set fl1"
    using c1 by auto
  have p1: "\<forall>p\<in>set (writes_of evs1). fst p = name \<and> snd p \<in> set fl1 \<and> snd p \<notin> set fl"
    using c1 by auto
  have d1: "distinct (writes_of evs1)"
    using c1 by auto
  have disj: "set (writes_of evs1) \<inter> set (writes_of evs2) = {}"
    using p1 p2 by blast
  have "trace w' = trace w @ (evs1 @ evs2)"
    using t1 t2 by simp
  moreover have "distinct (writes_of (evs1 @ evs2))"
    using d1 d2 disj by (simp add: writes_of_append)
  moreover have "set fl \<subseteq> set fl'"
    using sub s2 by blast
  moreover have "\<forall>p\<in>set (writes_of (evs1 @ evs2)).
      fst p = name \<and> snd p \<in> set fl' \<and> snd p \<notin> set fl"
    using p1 p2 sub s2 by (auto simp: writes_of_append)
  ultimately show ?case by blast
qed

lemma do_this_chip_sets_writes:
  assumes "sensors_do_this_chip_sets n env name w = Some (err, w')"
  shows "\<exists>evs. trace w' = trace w @ evs \<and> distinct (writes_of evs)
           \<and> (\<forall>p\<in>set (writes_of evs). fst p = name)"
proof -
  from assms obtain fl' where
    "sets_loop n env name (all_sets env name) (0, [], w) = Some (err, fl', w')"
    by (auto simp: sensors_do_this_chip_sets_def set_chips_loop_concat all_sets_def
        split: option.splits)
  from sets_loop_writes [OF this] show ?thesis by blast
qed

lemma set_chips_loop_mono:
  assumes "set_chips_loop n env name chips (err, fl, w) = Some (err', fl', w')"
  shows "set fl \<subseteq> set fl'"
proof -
  from assms have "sets_loop n env name (concat (map sets chips)) (err, fl, w)
      = Some (err', fl', w')"
    by (simp add: set_chips_loop_concat)
  from sets_loop_writes [OF this] show ?thesis by blast
qed

lemma sets_loop_mono:
  assumes "sets_loop n env name ss (err, fl, w) = Some (err', fl', w')"
  shows "set fl \<subseteq> set fl'"
  using sets_loop_writes [OF assms] by blast

lemma do_set_seen:
  "cn_prefix name = Some pfx \<Longrightarrow>
   sensors_lookup_feature_name (sensors_chip_features_list env) pfx (set_name s) = Some feature \<Longrightarrow>
   fd_number (data feature) \<in> set fl \<Longrightarrow>
   do_set n env name s (err, fl, w) = Some (err, fl, w)"
  by (simp add: do_set_def)

lemma do_set_adds:
  "cn_prefix name = Some pfx \<Longrightarrow>
   sensors_lookup_feature_name (sensors_chip_features_list env) pfx (set_name s) = Some feature \<Longrightarrow>
   do_set n env name s (err, fl, w) = Some (err', fl', w') \<Longrightarrow>
   fd_number (data feature) \<in> set fl'"
  by (auto simp: do_set_def Let_def split: option.splits if_splits)

text \<open>The loop of \<^verbatim>\<open>sensors_do_chip_sets\<close> over the detected chips.\<close>

lemma detected_loop_end:
  "length (sensors_proc_chips env) \<le> nr \<Longrightarrow> detected_loop n env q nr (res, w) = Some (res, w)"
  by (simp add: detected_loop.simps sensors_get_detected_chips_def)

lemma detected_loop_step:
  "nr < length (sensors_proc_chips env) \<Longrightarrow>
   detected_loop n env q nr (res, w) =
     (if sensors_match_chip q (sensors_proc_chips env ! nr)
      then (case sensors_do_this_chip_sets n env (sensors_proc_chips env ! nr) w of
              None \<Rightarrow> None
            | Some (this_res, w') \<Rightarrow>
                detected_loop n env q (Suc nr) (if res = 0 then this_res else res, w'))
      else detected_loop n env q (Suc nr) (res, w))"
  by (simp add: detected_loop.simps [of n env q nr res w] sensors_get_detected_chips_def)

lemma detected_loop_results:
  "detected_loop n env q nr (res, w) = Some (res', w') \<Longrightarrow>
   length (chip_results n env (filter (sensors_match_chip q) (drop nr (sensors_proc_chips env))) w)
     = length (filter (sensors_match_chip q) (drop nr (sensors_proc_chips env)))
   \<and> res' = (if res \<noteq> 0 then res
             else first_error
               (chip_results n env
                  (filter (sensors_match_chip q) (drop nr (sensors_proc_chips env))) w))"
proof (induction "length (sensors_proc_chips env) - nr" arbitrary: nr res w)
  case 0
  then have "length (sensors_proc_chips env) \<le> nr" by simp
  then show ?case
    using "0.prems" by (simp add: detected_loop_end first_error_def)
next
  case (Suc k)
  then have lt: "nr < length (sensors_proc_chips env)"
    and k: "k = length (sensors_proc_chips env) - Suc nr"
    by simp_all
  have dr: "drop nr (sensors_proc_chips env)
      = sensors_proc_chips env ! nr # drop (Suc nr) (sensors_proc_chips env)"
    using lt by (simp add: Cons_nth_drop_Suc)
  show ?case
  proof (cases "sensors_match_chip q (sensors_proc_chips env ! nr)")
    case False
    then have "detected_loop n env q (Suc nr) (res, w) = Some (res', w')"
      using Suc.prems lt by (simp add: detected_loop_step)
    from Suc.hyps(1) [OF k this] show ?thesis
      using False dr by simp
  next
    case True
    from Suc.prems lt True obtain this_res w1 where
      cur: "sensors_do_this_chip_sets n env (sensors_proc_chips env ! nr) w = Some (this_res, w1)"
      and rest: "detected_loop n env q (Suc nr) (if res = 0 then this_res else res, w1)
          = Some (res', w')"
      by (auto simp: detected_loop_step split: option.splits)
    from Suc.hyps(1) [OF k rest] show ?thesis
      using True dr cur by (simp add: first_error_def)
  qed
qed

lemma detected_loop_writes:
  "distinct (sensors_proc_chips env) \<Longrightarrow>
   detected_loop n env q nr (res, w) = Some (res', w') \<Longrightarrow>
   \<exists>evs. trace w' = trace w @ evs \<and> distinct (writes_of evs)
     \<and> (\<forall>p\<in>set (writes_of evs). fst p \<in> set (drop nr (sensors_proc_chips env)))"
proof (induction "length (sensors_proc_chips env) - nr" arbitrary: nr res w)
  case 0
  then have "length (sensors_proc_chips env) \<le> nr" by simp
  then show ?case
    using "0.prems" by (simp add: detected_loop_end)
next
  case (Suc k)
  then have lt: "nr < length (sensors_proc_chips env)"
    and k: "k = length (sensors_proc_chips env) - Suc nr"
    by simp_all
  have dr: "drop nr (sensors_proc_chips env)
      = sensors_proc_chips env ! nr # drop (Suc nr) (sensors_proc_chips env)"
    using lt by (simp add: Cons_nth_drop_Suc)
  have "distinct (drop nr (sensors_proc_chips env))"
    using Suc.prems(1) by simp
  then have fresh: "sensors_proc_chips env ! nr \<notin> set (drop (Suc nr) (sensors_proc_chips env))"
    unfolding dr by simp
  show ?case
  proof (cases "sensors_match_chip q (sensors_proc_chips env ! nr)")
    case False
    then have "detected_loop n env q (Suc nr) (res, w) = Some (res', w')"
      using Suc.prems lt by (simp add: detected_loop_step)
    from Suc.hyps(1) [OF k Suc.prems(1) this] show ?thesis
      unfolding dr by auto
  next
    case True
    from Suc.prems lt True obtain this_res w1 where
      cur: "sensors_do_this_chip_sets n env (sensors_proc_chips env ! nr) w = Some (this_res, w1)"
      and rest: "detected_loop n env q (Suc nr) (if res = 0 then this_res else res, w1)
          = Some (res', w')"
      by (auto simp: detected_loop_step split: option.splits)
    from do_this_chip_sets_writes [OF cur] obtain evs1 where
      t1: "trace w1 = trace w @ evs1" and d1: "distinct (writes_of evs1)"
      and p1: "\<forall>p\<in>set (writes_of evs1). fst p = sensors_proc_chips env ! nr"
      by blast
    from Suc.hyps(1) [OF k Suc.prems(1) rest] obtain evs2 where
      t2: "trace w' = trace w1 @ evs2" and d2: "distinct (writes_of evs2)"
      and p2: "\<forall>p\<in>set (writes_of evs2). fst p \<in> set (drop (Suc nr) (sensors_proc_chips env))"
      by blast
    have disj: "set (writes_of evs1) \<inter> set (writes_of evs2) = {}"
      using p1 p2 fresh by fastforce
    have "trace w' = trace w @ (evs1 @ evs2)"
      using t1 t2 by simp
    moreover have "distinct (writes_of (evs1 @ evs2))"
      using d1 d2 disj by (simp add: writes_of_append)
    moreover have "\<forall>p\<in>set (writes_of (evs1 @ evs2)).
        fst p \<in> set (drop nr (sensors_proc_chips env))"
      unfolding dr using p1 p2 by (auto simp: writes_of_append)
    ultimately show ?thesis by blast
  qed
qed

lemmas run_defs = do_set_def sensors_eval_expr_def sensors_set_feature_def set_feature_tail_def
  get_feature_with_def get_feature_tail_def computes_to_chip_def alt_matches_def
  sensors_write_proc_def sensors_parse_error_def sensors_chip_name_has_wildcards_def
  sensors_match_chip_def SENSORS_MODE_R_def SENSORS_MODE_W_def tolower_def Let_def
  config_chips_after_None

section \<open>The bound on the recursion\<close>

text \<open>
  The bound on the recursion: a call that has a result within a bound has the same result
  within every larger bound.
\<close>

lemma eval_expr_with_mono:
  "eval_expr_with g cat ui c e val r = Some y \<Longrightarrow>
   (\<And>f r x. g f r = Some x \<Longrightarrow> g' f r = Some x) \<Longrightarrow>
   eval_expr_with g' cat ui c e val r = Some y"
proof (induction g cat ui c e val r arbitrary: y rule: eval_expr_with.induct)
  case (3 getf cat ui chipname var val result)
  show ?case
  proof (cases "cn_prefix chipname")
    case None
    then show ?thesis using "3.prems" by simp
  next
    case (Some pfx)
    show ?thesis
    proof (cases "sensors_lookup_feature_name cat pfx var")
      case None
      then show ?thesis using "3.prems" Some by simp
    next
      case (Some feature)
      from "3.prems"(1) \<open>cn_prefix chipname = Some pfx\<close> Some obtain x where
        x: "getf (fd_number (data feature)) result = Some x"
        by (auto split: option.splits)
      from "3.prems"(2) [OF x] x "3.prems"(1) \<open>cn_prefix chipname = Some pfx\<close> Some
      show ?thesis by simp
    qed
  qed
next
  case (4 getf cat ui chipname op sub1 val result)
  from "4.prems"(1) obtain x where
    a: "eval_expr_with getf cat ui chipname sub1 val ui = Some x"
    by (auto split: option.splits)
  from "4.IH" [OF a "4.prems"(2)] a "4.prems"(1) show ?case by simp
next
  case (5 getf cat ui chipname op sub1 sub2 val result)
  from "5.prems"(1) obtain res res1 where
    a: "eval_expr_with getf cat ui chipname sub1 val ui = Some (res, res1)"
    by (auto split: option.splits)
  from "5.IH"(1) [OF a "5.prems"(2)]
  have a': "eval_expr_with g' cat ui chipname sub1 val ui = Some (res, res1)" .
  show ?case
  proof (cases "res = 0")
    case False
    then show ?thesis using "5.prems"(1) a a' by simp
  next
    case True
    from "5.prems"(1) a True obtain res' res2 where
      b: "eval_expr_with getf cat ui chipname sub2 val ui = Some (res', res2)"
      by (auto split: option.splits)
    have "\<not> res \<noteq> 0" using True by simp
    from "5.IH"(2) [OF a refl this b "5.prems"(2)]
    have b': "eval_expr_with g' cat ui chipname sub2 val ui = Some (res', res2)" .
    show ?thesis using "5.prems"(1) a a' b b' True by simp
  qed
qed simp_all

lemma get_feature_tail_mono:
  assumes le: "\<And>e v r x. ev e v r = Some x \<Longrightarrow> ev' e v r = Some x"
    and res: "get_feature_tail ev env w name f mf alt r = Some y"
  shows "get_feature_tail ev' env w name f mf alt r = Some y"
proof (cases "fd_mode (data mf) AND SENSORS_MODE_R = 0")
  case True
  then show ?thesis using res by (simp add: get_feature_tail_def)
next
  case readable: False
  show ?thesis
  proof (cases "read_proc env (hw w) name f")
    case None
    then show ?thesis using res readable by (simp add: get_feature_tail_def)
  next
    case (Some raw)
    show ?thesis
    proof (cases "fst (from_chips_loop (config_chips_after (sensors_config_chips env) name None)
                         (fd_name (data mf)) alt (None, False))")
      case None
      then show ?thesis using res readable Some by (simp add: get_feature_tail_def)
    next
      case found: (Some e)
      from res readable Some found obtain x where x: "ev e raw r = Some x"
        by (auto simp: get_feature_tail_def split: option.splits)
      from le [OF x] x res readable Some found show ?thesis
        by (simp add: get_feature_tail_def)
    qed
  qed
qed

lemma get_feature_with_mono:
  assumes le: "\<And>e v r x. ev e v r = Some x \<Longrightarrow> ev' e v r = Some x"
  shows "get_feature_with ev env w name f r = Some y \<Longrightarrow>
         get_feature_with ev' env w name f r = Some y"
  by (auto simp: get_feature_with_def split: option.splits if_splits
      intro: get_feature_tail_mono [OF le])

lemma sensors_get_feature_Suc:
  "sensors_get_feature n env w name f r = Some y \<Longrightarrow>
   sensors_get_feature (Suc n) env w name f r = Some y"
proof (induction n arbitrary: f r y)
  case 0
  have "get_feature_with
          (eval_expr_with (sensors_get_feature 0 env w name)
             (sensors_chip_features_list env) (uninit env) name) env w name f r = Some y"
  proof (rule get_feature_with_mono [rotated])
    show "get_feature_with
            (eval_expr_with (\<lambda>feature result. None)
               (sensors_chip_features_list env) (uninit env) name) env w name f r = Some y"
      using "0.prems" by simp
  next
    fix e v r' x
    assume "eval_expr_with (\<lambda>feature result. None) (sensors_chip_features_list env)
              (uninit env) name e v r' = Some x"
    then show "eval_expr_with (sensors_get_feature 0 env w name)
              (sensors_chip_features_list env) (uninit env) name e v r' = Some x"
      by (rule eval_expr_with_mono) simp
  qed
  then show ?case by simp
next
  case (Suc n)
  have "get_feature_with
          (eval_expr_with (sensors_get_feature (Suc n) env w name)
             (sensors_chip_features_list env) (uninit env) name) env w name f r = Some y"
  proof (rule get_feature_with_mono [rotated])
    show "get_feature_with
            (eval_expr_with (sensors_get_feature n env w name)
               (sensors_chip_features_list env) (uninit env) name) env w name f r = Some y"
      using Suc.prems by simp
  next
    fix e v r' x
    assume "eval_expr_with (sensors_get_feature n env w name) (sensors_chip_features_list env)
              (uninit env) name e v r' = Some x"
    then show "eval_expr_with (sensors_get_feature (Suc n) env w name)
              (sensors_chip_features_list env) (uninit env) name e v r' = Some x"
      by (rule eval_expr_with_mono) (rule Suc.IH)
  qed
  then show ?case by simp
qed

lemma sensors_get_feature_mono:
  "n \<le> m \<Longrightarrow> sensors_get_feature n env w name f r = Some y \<Longrightarrow>
   sensors_get_feature m env w name f r = Some y"
  by (induction m rule: dec_induct) (simp_all add: sensors_get_feature_Suc del: sensors_get_feature.simps)

lemma sensors_eval_expr_mono:
  assumes "n \<le> m" and "sensors_eval_expr n env w c e v r = Some y"
  shows "sensors_eval_expr m env w c e v r = Some y"
proof -
  have "eval_expr_with
          (case m of 0 \<Rightarrow> (\<lambda>feature result. None) | Suc k \<Rightarrow> sensors_get_feature k env w c)
          (sensors_chip_features_list env) (uninit env) c e v r = Some y"
  proof (rule eval_expr_with_mono)
    show "eval_expr_with
          (case n of 0 \<Rightarrow> (\<lambda>feature result. None) | Suc k \<Rightarrow> sensors_get_feature k env w c)
          (sensors_chip_features_list env) (uninit env) c e v r = Some y"
      using assms(2) by (simp add: sensors_eval_expr_def)
  next
    fix f r' x
    assume "(case n of 0 \<Rightarrow> (\<lambda>feature result. None) | Suc k \<Rightarrow> sensors_get_feature k env w c)
              f r' = Some x"
    then show "(case m of 0 \<Rightarrow> (\<lambda>feature result. None)
                | Suc k \<Rightarrow> sensors_get_feature k env w c) f r' = Some x"
      using assms(1) sensors_get_feature_mono [of _ _ env w c f r' x]
      by (cases n; cases m) (simp_all del: sensors_get_feature.simps)
  qed
  then show ?thesis by (simp add: sensors_eval_expr_def)
qed

lemma set_feature_tail_mono:
  assumes le: "n \<le> m"
    and res: "set_feature_tail n env name f v mf alt w = Some y"
  shows "set_feature_tail m env name f v mf alt w = Some y"
proof (cases "fd_mode (data mf) AND SENSORS_MODE_W = 0")
  case True
  then show ?thesis using res by (simp add: set_feature_tail_def)
next
  case writable: False
  show ?thesis
  proof (cases "fst (to_chips_loop (config_chips_after (sensors_config_chips env) name None)
                       (fd_name (data mf)) alt (None, False))")
    case None
    then show ?thesis using res writable by (simp add: set_feature_tail_def)
  next
    case (Some e)
    from res writable Some obtain x where x: "sensors_eval_expr n env w name e v v = Some x"
      by (auto simp: set_feature_tail_def split: option.splits)
    from sensors_eval_expr_mono [OF le x] x res writable Some show ?thesis
      by (simp add: set_feature_tail_def)
  qed
qed

lemma sensors_set_feature_mono:
  "n \<le> m \<Longrightarrow> sensors_set_feature n env name f v w = Some y \<Longrightarrow>
   sensors_set_feature m env name f v w = Some y"
  by (auto simp: sensors_set_feature_def split: option.splits if_splits
      intro: set_feature_tail_mono)

lemma do_set_mono:
  assumes le: "n \<le> m" and res: "do_set n env name s st = Some y"
  shows "do_set m env name s st = Some y"
proof -
  obtain err fl w where st: "st = (err, fl, w)" by (cases st) auto
  from res obtain pfx where pfx: "cn_prefix name = Some pfx"
    by (auto simp: do_set_def split: option.splits prod.splits)
  show ?thesis
  proof (cases "sensors_lookup_feature_name (sensors_chip_features_list env) pfx (set_name s)")
    case None
    then show ?thesis using res pfx st by (auto simp: do_set_def)
  next
    case (Some feature)
    show ?thesis
    proof (cases "fd_number (data feature) \<in> set fl")
      case True
      then show ?thesis using res pfx st Some by (auto simp: do_set_def)
    next
      case False
      from res pfx st Some False obtain x where
        x: "sensors_eval_expr n env w name (set_value s) 0 (uninit env) = Some x"
        by (auto simp: do_set_def Let_def split: option.splits)
      note x' = sensors_eval_expr_mono [OF le x]
      show ?thesis
      proof (cases "fst x = 0")
        case nz: False
        then show ?thesis
          using res pfx st Some False x x'
          by (cases x) (auto simp: do_set_def Let_def)
      next
        case True
        from res pfx st Some False x True obtain z where
          z: "sensors_set_feature n env name (fd_number (data feature)) (snd x) w = Some z"
          by (cases x) (auto simp: do_set_def Let_def split: option.splits)
        from sensors_set_feature_mono [OF le z] z res pfx st Some False x x' True
        show ?thesis
          by (cases x) (auto simp: do_set_def Let_def)
      qed
    qed
  qed
qed

lemma sets_loop_fuel_mono:
  "n \<le> m \<Longrightarrow> sets_loop n env name ss st = Some y \<Longrightarrow> sets_loop m env name ss st = Some y"
proof (induction ss arbitrary: st)
  case Nil
  then show ?case by simp
next
  case (Cons s ss)
  from Cons.prems obtain st1 where
    step: "do_set n env name s st = Some st1"
    and rest: "sets_loop n env name ss st1 = Some y"
    by (auto split: option.splits)
  from do_set_mono [OF Cons.prems(1) step] Cons.IH [OF Cons.prems(1) rest]
  show ?case by simp
qed

lemma do_this_chip_sets_mono:
  assumes "n \<le> m" and "sensors_do_this_chip_sets n env name w = Some y"
  shows "sensors_do_this_chip_sets m env name w = Some y"
proof -
  from assms(2) obtain st where
    st: "sets_loop n env name (all_sets env name) (0, [], w) = Some st"
    by (auto simp: sensors_do_this_chip_sets_def set_chips_loop_concat all_sets_def
        split: option.splits)
  from sets_loop_fuel_mono [OF assms(1) st] st assms(2) show ?thesis
    by (simp add: sensors_do_this_chip_sets_def set_chips_loop_concat all_sets_def)
qed

lemma detected_loop_mono:
  "n \<le> m \<Longrightarrow> detected_loop n env q nr (res, w) = Some y \<Longrightarrow>
   detected_loop m env q nr (res, w) = Some y"
proof (induction "length (sensors_proc_chips env) - nr" arbitrary: nr res w)
  case 0
  then show ?case by (auto simp: detected_loop_end)
next
  case (Suc k)
  then have lt: "nr < length (sensors_proc_chips env)"
    and k: "k = length (sensors_proc_chips env) - Suc nr"
    by simp_all
  show ?case
  proof (cases "sensors_match_chip q (sensors_proc_chips env ! nr)")
    case False
    then have "detected_loop n env q (Suc nr) (res, w) = Some y"
      using Suc.prems lt by (simp add: detected_loop_step)
    from Suc.hyps(1) [OF k Suc.prems(1) this] show ?thesis
      using False lt by (simp add: detected_loop_step)
  next
    case True
    from Suc.prems lt True obtain this_res w1 where
      cur: "sensors_do_this_chip_sets n env (sensors_proc_chips env ! nr) w = Some (this_res, w1)"
      and rest: "detected_loop n env q (Suc nr) (if res = 0 then this_res else res, w1) = Some y"
      by (auto simp: detected_loop_step split: option.splits)
    from do_this_chip_sets_mono [OF Suc.prems(1) cur] Suc.hyps(1) [OF k Suc.prems(1) rest]
    show ?thesis
      using lt True by (simp add: detected_loop_step)
  qed
qed

text \<open>
  The results of the library functions do not depend on the bound \<open>n\<close> once it is large
  enough for the call to have a result.
\<close>

lemma larger_bound_same_result:
  assumes "n \<le> m"
  shows "sensors_get_feature n env w name f r = Some y \<Longrightarrow>
         sensors_get_feature m env w name f r = Some y"
    and "sensors_eval_expr n env w name e v r = Some y \<Longrightarrow>
         sensors_eval_expr m env w name e v r = Some y"
    and "sensors_set_feature n env name f v w = Some z \<Longrightarrow>
         sensors_set_feature m env name f v w = Some z"
    and "sensors_do_this_chip_sets n env name w = Some z \<Longrightarrow>
         sensors_do_this_chip_sets m env name w = Some z"
    and "sensors_do_chip_sets n env name w = Some z \<Longrightarrow>
         sensors_do_chip_sets m env name w = Some z"
  using assms
  by (simp_all add: sensors_get_feature_mono sensors_eval_expr_mono sensors_set_feature_mono
      do_this_chip_sets_mono detected_loop_mono sensors_do_chip_sets_def
      del: sensors_get_feature.simps)

text \<open>
  Configurations without variable nodes: every call has a result, within every bound.
\<close>

lemma eval_var_free:
  "var_free e \<Longrightarrow> \<exists>y. eval_expr_with g cat ui c e val r = Some y"
proof (induction g cat ui c e val r rule: eval_expr_with.induct)
  case (4 getf cat ui chipname op sub1 val result)
  then obtain y where "eval_expr_with getf cat ui chipname sub1 val ui = Some y"
    by auto
  then show ?case by (cases y) simp
next
  case (5 getf cat ui chipname op sub1 sub2 val result)
  then obtain res res1 where
    a: "eval_expr_with getf cat ui chipname sub1 val ui = Some (res, res1)"
    by fastforce
  show ?case
  proof (cases "res = 0")
    case False
    then show ?thesis using a by simp
  next
    case True
    then have "\<not> res \<noteq> 0" by simp
    from "5.IH"(2) [OF a refl this] "5.prems" obtain y where
      "eval_expr_with getf cat ui chipname sub2 val ui = Some y"
      by auto
    then show ?thesis using a True by (cases y) simp
  qed
qed simp_all

lemma config_chips_after_subset:
  "set (config_chips_after cfg name None) \<subseteq> set cfg"
  by (auto simp: config_chips_after_None)

lemma computes_from_loop_source:
  "computes_from_loop cs nm alt (expr, fin) = (Some e, fin') \<Longrightarrow>
   expr = Some e \<or> (\<exists>c\<in>set cs. e = from_proc c)"
  by (induction cs arbitrary: expr fin) (auto split: if_splits)

lemma from_chips_loop_source:
  "from_chips_loop chips nm alt (expr, fin) = (Some e, fin') \<Longrightarrow>
   expr = Some e \<or> (\<exists>chip\<in>set chips. \<exists>c\<in>set (computes chip). e = from_proc c)"
proof (induction chips arbitrary: expr fin)
  case Nil
  then show ?case by simp
next
  case (Cons chip chips)
  show ?case
  proof (cases expr)
    case (Some x)
    then show ?thesis using Cons.prems by simp
  next
    case None
    obtain expr1 fin1 where
      one: "computes_from_loop (computes chip) nm alt (None, fin) = (expr1, fin1)"
      by (cases "computes_from_loop (computes chip) nm alt (None, fin)") auto
    then have rest: "from_chips_loop chips nm alt (expr1, fin1) = (Some e, fin')"
      using Cons.prems None by simp
    from Cons.IH [OF rest] show ?thesis
    proof
      assume "expr1 = Some e"
      then show ?thesis using computes_from_loop_source [of "computes chip" nm alt None fin e fin1] one
        by auto
    next
      assume "\<exists>chip\<in>set chips. \<exists>c\<in>set (computes chip). e = from_proc c"
      then show ?thesis by auto
    qed
  qed
qed

lemma computes_to_loop_source:
  "computes_to_loop c0 cs nm alt (expr, fin) = (Some e, fin') \<Longrightarrow>
   expr = Some e \<or> e = to_proc c0 \<or> (\<exists>c\<in>set cs. e = to_proc c)"
  by (induction cs arbitrary: expr fin) (auto split: if_splits)

lemma computes_to_chip_source:
  "computes_to_chip chip nm alt (expr, fin) = (Some e, fin') \<Longrightarrow>
   expr = Some e \<or> (\<exists>c\<in>set (computes chip). e = to_proc c)"
  by (cases "computes chip")
     (auto simp: computes_to_chip_def dest!: computes_to_loop_source simp del: computes_to_loop.simps)

lemma to_chips_loop_source:
  "to_chips_loop chips nm alt (expr, fin) = (Some e, fin') \<Longrightarrow>
   expr = Some e \<or> (\<exists>chip\<in>set chips. \<exists>c\<in>set (computes chip). e = to_proc c)"
proof (induction chips arbitrary: expr fin)
  case Nil
  then show ?case by simp
next
  case (Cons chip chips)
  show ?case
  proof (cases expr)
    case (Some x)
    then show ?thesis using Cons.prems by simp
  next
    case None
    obtain expr1 fin1 where
      one: "computes_to_chip chip nm alt (None, fin) = (expr1, fin1)"
      by (cases "computes_to_chip chip nm alt (None, fin)") auto
    then have rest: "to_chips_loop chips nm alt (expr1, fin1) = (Some e, fin')"
      using Cons.prems None by simp
    from Cons.IH [OF rest] show ?thesis
    proof
      assume "expr1 = Some e"
      then show ?thesis using computes_to_chip_source [of chip nm alt None fin e fin1] one
        by auto
    next
      assume "\<exists>chip\<in>set chips. \<exists>c\<in>set (computes chip). e = to_proc c"
      then show ?thesis by auto
    qed
  qed
qed

lemma get_feature_total:
  assumes "config_var_free env"
  shows "\<exists>y. sensors_get_feature n env w name f r = Some y"
proof -
  have tail: "\<exists>y. get_feature_tail (sensors_eval_expr n env w name) env w name f mf alt r = Some y"
    for mf alt
  proof (cases "fst (from_chips_loop (config_chips_after (sensors_config_chips env) name None)
                       (fd_name (data mf)) alt (None, False))")
    case None
    then show ?thesis
      by (simp add: get_feature_tail_def split: option.splits)
  next
    case (Some e)
    then obtain fin' where "from_chips_loop (config_chips_after (sensors_config_chips env) name None)
                       (fd_name (data mf)) alt (None, False) = (Some e, fin')"
      by (cases "from_chips_loop (config_chips_after (sensors_config_chips env) name None)
                       (fd_name (data mf)) alt (None, False)") auto
    from from_chips_loop_source [OF this] have "var_free e"
      using assms config_chips_after_subset [of "sensors_config_chips env" name]
      by (auto simp: config_var_free_def)
    then have ev: "sensors_eval_expr n env w name e v r \<noteq> None" for v
      unfolding sensors_eval_expr_def using eval_var_free by fastforce
    show ?thesis
      using Some by (auto simp: ev get_feature_tail_def Let_def split: option.splits)
  qed
  show ?thesis
    using tail by (simp add: sensors_get_feature_unfold get_feature_with_def split: option.splits)
qed

lemma set_feature_total:
  assumes "config_var_free env"
  shows "\<exists>y. sensors_set_feature n env name f v w = Some y"
proof -
  have tail: "\<exists>y. set_feature_tail n env name f v mf alt w = Some y" for mf alt
  proof (cases "fst (to_chips_loop (config_chips_after (sensors_config_chips env) name None)
                       (fd_name (data mf)) alt (None, False))")
    case None
    then show ?thesis
      by (simp add: set_feature_tail_def split: prod.splits)
  next
    case (Some e)
    then obtain fin' where "to_chips_loop (config_chips_after (sensors_config_chips env) name None)
                       (fd_name (data mf)) alt (None, False) = (Some e, fin')"
      by (cases "to_chips_loop (config_chips_after (sensors_config_chips env) name None)
                       (fd_name (data mf)) alt (None, False)") auto
    from to_chips_loop_source [OF this] have "var_free e"
      using assms config_chips_after_subset [of "sensors_config_chips env" name]
      by (auto simp: config_var_free_def)
    then have ev: "sensors_eval_expr n env w name e v v \<noteq> None"
      unfolding sensors_eval_expr_def using eval_var_free by fastforce
    show ?thesis
      using Some by (auto simp: ev set_feature_tail_def split: option.splits prod.splits)
  qed
  show ?thesis
    using tail by (simp add: sensors_set_feature_def split: option.splits)
qed

lemma do_set_total:
  assumes "config_var_free env" and "cn_prefix name \<noteq> None" and "var_free (set_value s)"
  shows "\<exists>y. do_set n env name s st = Some y"
proof -
  obtain err fl w where st: "st = (err, fl, w)" by (cases st) auto
  obtain pfx where pfx: "cn_prefix name = Some pfx" using assms(2) by auto
  from assms(3) obtain res v where
    ev: "sensors_eval_expr n env w name (set_value s) 0 (uninit env) = Some (res, v)"
    unfolding sensors_eval_expr_def using eval_var_free by fastforce
  have sf: "sensors_set_feature n env name f v w \<noteq> None" for f
    using set_feature_total [OF assms(1), of n name f v w] by auto
  show ?thesis
    using st pfx ev by (auto simp: sf do_set_def Let_def split: option.splits)
qed

lemma sets_loop_total:
  assumes "config_var_free env" and "cn_prefix name \<noteq> None"
  shows "\<forall>s\<in>set ss. var_free (set_value s) \<Longrightarrow> \<exists>y. sets_loop n env name ss st = Some y"
proof (induction ss arbitrary: st)
  case Nil
  show ?case by (rule exI [of _ st]) simp
next
  case (Cons s ss)
  from do_set_total [OF assms, of s n st] Cons.prems obtain st1 where
    "do_set n env name s st = Some st1"
    by auto
  moreover from Cons.IH [of st1] Cons.prems obtain y where
    "sets_loop n env name ss st1 = Some y"
    by auto
  ultimately show ?case by (intro exI [of _ y]) simp
qed

lemma do_this_chip_sets_total:
  assumes "config_var_free env" and "cn_prefix name \<noteq> None"
  shows "\<exists>y. sensors_do_this_chip_sets n env name w = Some y"
proof -
  have "\<forall>s\<in>set (all_sets env name). var_free (set_value s)"
    using assms(1) config_chips_after_subset [of "sensors_config_chips env" name]
    by (auto simp: all_sets_def config_var_free_def)
  from sets_loop_total [OF assms this] obtain y where
    "sets_loop n env name (all_sets env name) (0, [], w) = Some y"
    by blast
  then show ?thesis
    by (cases y)
       (simp add: sensors_do_this_chip_sets_def set_chips_loop_concat all_sets_def)
qed

lemma detected_loop_total:
  assumes "config_var_free env" and "\<forall>c\<in>set (sensors_proc_chips env). cn_prefix c \<noteq> None"
  shows "\<exists>y. detected_loop n env q nr (res, w) = Some y"
proof (induction "length (sensors_proc_chips env) - nr" arbitrary: nr res w)
  case 0
  then show ?case by (simp add: detected_loop_end)
next
  case (Suc k)
  then have lt: "nr < length (sensors_proc_chips env)"
    and k: "k = length (sensors_proc_chips env) - Suc nr"
    by simp_all
  from lt assms(2) have "cn_prefix (sensors_proc_chips env ! nr) \<noteq> None"
    by simp
  from do_this_chip_sets_total [OF assms(1) this] obtain this_res w1 where
    "sensors_do_this_chip_sets n env (sensors_proc_chips env ! nr) w = Some (this_res, w1)"
    by (metis surj_pair)
  then show ?case
    using lt Suc.hyps(1) [OF k] by (simp add: detected_loop_step)
qed

text \<open>
  When no expression of the configuration has a variable node and every detected chip has
  a prefix, executing the set statements has a result whatever the bound is.
\<close>

lemma var_free_config_total:
  assumes "config_var_free env" and "\<forall>c\<in>set (sensors_proc_chips env). cn_prefix c \<noteq> None"
  shows "\<exists>y. sensors_do_chip_sets n env q w = Some y"
  unfolding sensors_do_chip_sets_def using assms by (rule detected_loop_total)

section \<open>The claims\<close>

subsection \<open>C1: the "to" expression of set\_value\<close>

text \<open>
  C1 (the code departs from the claim). On a match on the feature's own name
  \<^verbatim>\<open>sensors_set_feature\<close> takes the "to" expression of the first compute statement of the
  entry, not that of the statement that matched. In the example the statement named for
  feature 1 divides by 10, so the value 50 should be written as 5; the first statement of
  the entry, named for another feature, doubles, and 100 is written.
\<close>

theorem set_feature_takes_first_to_proc:
  "config_chips_after (sensors_config_chips ex1_env) ex_chip None = sensors_config_chips ex1_env
   \<and> map compute_name (computes (hd (sensors_config_chips ex1_env))) = [''temp1'', ''in0'']
   \<and> sensors_eval_expr 0 ex1_env ex_world ex_chip
        (to_proc (computes (hd (sensors_config_chips ex1_env)) ! 1)) 50 50 = Some (0, 5)
   \<and> sensors_set_feature 0 ex1_env ex_chip 1 50 ex_world
       = Some (0, \<lparr>hw = (), trace = [EvWrite ex_chip 1 100]\<rparr>)"
proof -
  have scan: "config_chips_after (sensors_config_chips ex1_env) ex_chip None
       = sensors_config_chips ex1_env"
    by (simp add: config_chips_after_None ex1_env_def ex_defs sensors_match_chip_def tolower_def)
  have names: "map compute_name (computes (hd (sensors_config_chips ex1_env)))
       = [''temp1'', ''in0'']"
    by (simp add: ex1_env_def ex_env_def)
  have ev: "sensors_eval_expr 0 ex1_env ex_world ex_chip
        (to_proc (computes (hd (sensors_config_chips ex1_env)) ! 1)) 50 50 = Some (0, 5)"
    by (simp add: sensors_eval_expr_def ex1_env_def ex_env_def)
  have st: "sensors_set_feature 0 ex1_env ex_chip 1 50 ex_world
       = Some (0, \<lparr>hw = (), trace = [EvWrite ex_chip 1 100]\<rparr>)"
    unfolding sensors_set_feature_def set_feature_tail_def scan
    by (simp add: sensors_chip_name_has_wildcards_def computes_to_chip_def alt_matches_def
        sensors_eval_expr_def sensors_write_proc_def SENSORS_MODE_W_def
        ex1_env_def ex_defs tolower_def)
  show ?thesis using scan names ev st by simp
qed

subsection \<open>C2: variable references\<close>

text \<open>
  C2 (the code departs from the claim). For a variable node \<^verbatim>\<open>sensors_eval_expr\<close> returns
  0 whatever \<^verbatim>\<open>sensors_get_feature\<close> returns, so an error of the latter is turned into
  success and the result is left as it was; and for a name missing from the catalogue it
  returns the positive \<^verbatim>\<open>SENSORS_ERR_NO_ENTRY\<close>. In the example feature 2 cannot be
  read: reading it fails with \<^verbatim>\<open>-SENSORS_ERR_ACCESS_R\<close>, and the expression that refers
  to it evaluates with return code 0, the result still holding its previous content 7.
\<close>

theorem eval_var_drops_error:
  "sensors_lookup_feature_name (sensors_chip_features_list ex2_env) ''lm78'' ''in1''
       = Some (mk_feature 2 ''in1'' None None 2)
   \<and> sensors_get_feature 0 ex2_env ex_world ex_chip 2 7 = Some (- SENSORS_ERR_ACCESS_R, 7)
   \<and> sensors_eval_expr 1 ex2_env ex_world ex_chip (Kind_var ''in1'') 0 7 = Some (0, 7)
   \<and> sensors_lookup_feature_name (sensors_chip_features_list ex2_env) ''lm78'' ''in9'' = None
   \<and> sensors_eval_expr 1 ex2_env ex_world ex_chip (Kind_var ''in9'') 0 7
       = Some (SENSORS_ERR_NO_ENTRY, 7)"
proof -
  have ln: "sensors_lookup_feature_name (sensors_chip_features_list ex2_env) ''lm78'' ''in1''
       = Some (mk_feature 2 ''in1'' None None 2)"
    by (simp add: ex2_env_def ex_defs tolower_def)
  have l9: "sensors_lookup_feature_name (sensors_chip_features_list ex2_env) ''lm78'' ''in9''
       = None"
    by (simp add: ex2_env_def ex_defs tolower_def)
  have get: "sensors_get_feature 0 ex2_env ex_world ex_chip 2 7
       = Some (- SENSORS_ERR_ACCESS_R, 7)"
    by (simp add: get_feature_with_def get_feature_tail_def sensors_chip_name_has_wildcards_def
        SENSORS_MODE_R_def ex2_env_def ex_defs tolower_def)
  have pfx: "cn_prefix ex_chip = Some ''lm78''"
    by (simp add: ex_chip_def)
  have ev: "sensors_eval_expr 1 ex2_env ex_world ex_chip (Kind_var ''in1'') 0 7 = Some (0, 7)"
    using ln get pfx
    by (simp add: sensors_eval_expr_def mk_feature_def SENSORS_ERR_ACCESS_R_def)
  have e9: "sensors_eval_expr 1 ex2_env ex_world ex_chip (Kind_var ''in9'') 0 7
       = Some (SENSORS_ERR_NO_ENTRY, 7)"
    using l9 pfx by (simp add: sensors_eval_expr_def)
  show ?thesis using ln l9 get ev e9 by simp
qed

subsection \<open>C3: the return value of apply\_all\_sets\<close>

text \<open>
  C3 (as amended). \<^verbatim>\<open>sensors_do_this_chip_sets\<close> goes through every set statement of
  every matching configuration entry, whether or not earlier statements have failed (each
  statement has its own status in \<open>set_statuses\<close>), and returns the error code of the last
  statement that failed, 0 if none did. \<^verbatim>\<open>sensors_do_chip_sets\<close> handles every matching
  detected chip, whether or not earlier chips have failed, and returns the first non-zero
  return code of \<^verbatim>\<open>sensors_do_this_chip_sets\<close> among them, 0 if there is none. So the
  return value is that of the last failing statement of the first chip with a failing
  statement.
\<close>

theorem do_chip_sets_result:
  "(sensors_do_this_chip_sets n env name w = Some (err, w') \<longrightarrow>
      length (set_statuses n env name (all_sets env name) [] w) = length (all_sets env name)
      \<and> err = last_error (set_statuses n env name (all_sets env name) [] w))
   \<and> (sensors_do_chip_sets n env q w = Some (res, w'') \<longrightarrow>
      length (chip_results n env (matching_detected env q) w)
        = length (matching_detected env q)
      \<and> res = first_error (chip_results n env (matching_detected env q) w))"
proof (intro conjI impI)
  assume "sensors_do_this_chip_sets n env name w = Some (err, w')"
  then obtain fl' where
    "sets_loop n env name (all_sets env name) (0, [], w) = Some (err, fl', w')"
    by (auto simp: sensors_do_this_chip_sets_def set_chips_loop_concat all_sets_def
        split: option.splits)
  from sets_loop_statuses [OF this]
  show "length (set_statuses n env name (all_sets env name) [] w) = length (all_sets env name)"
    and "err = last_error (set_statuses n env name (all_sets env name) [] w)"
    by (simp_all add: last_error_def)
next
  assume "sensors_do_chip_sets n env q w = Some (res, w'')"
  then have "detected_loop n env q 0 (0, w) = Some (res, w'')"
    by (simp add: sensors_do_chip_sets_def)
  from detected_loop_results [OF this]
  show "length (chip_results n env (matching_detected env q) w)
        = length (matching_detected env q)"
    and "res = first_error (chip_results n env (matching_detected env q) w)"
    by (simp_all add: matching_detected_def)
qed

text \<open>
  The theorem on an example with three set statements: the first names an unknown feature,
  the second divides by zero, the third is carried out.
\<close>

theorem do_chip_sets_result_witness:
  "sensors_do_this_chip_sets 0 ex3_env ex_chip ex_world
       = Some (- SENSORS_ERR_DIV_ZERO,
           \<lparr>hw = (), trace = [EvParseError ''Unknown feature name'' 1,
                               EvParseError ''Error parsing expression'' 2,
                               EvWrite ex_chip 2 3]\<rparr>)
   \<and> sensors_do_chip_sets 0 ex3_env \<lparr>cn_prefix = None, cn_bus = BUS_ANY, cn_addr = None\<rparr>
        ex_world
       = Some (- SENSORS_ERR_DIV_ZERO,
           \<lparr>hw = (), trace = [EvParseError ''Unknown feature name'' 1,
                               EvParseError ''Error parsing expression'' 2,
                               EvWrite ex_chip 2 3]\<rparr>)
   \<and> length (all_sets ex3_env ex_chip) = 3
   \<and> length (set_statuses 0 ex3_env ex_chip (all_sets ex3_env ex_chip) [] ex_world) = 3
   \<and> last_error (set_statuses 0 ex3_env ex_chip (all_sets ex3_env ex_chip) [] ex_world)
       = - SENSORS_ERR_DIV_ZERO
   \<and> first_error (chip_results 0 ex3_env
        (matching_detected ex3_env \<lparr>cn_prefix = None, cn_bus = BUS_ANY, cn_addr = None\<rparr>)
        ex_world) = - SENSORS_ERR_DIV_ZERO"
proof -
  let ?w' = "\<lparr>hw = (), trace = [EvParseError ''Unknown feature name'' 1,
                               EvParseError ''Error parsing expression'' 2,
                               EvWrite ex_chip 2 3]\<rparr> :: unit world"
  let ?q = "\<lparr>cn_prefix = None, cn_bus = BUS_ANY, cn_addr = None\<rparr>"
  have this_chip: "sensors_do_this_chip_sets 0 ex3_env ex_chip ex_world
       = Some (- SENSORS_ERR_DIV_ZERO, ?w')"
    unfolding sensors_do_this_chip_sets_def
    by (simp add: run_defs err_defs ex3_env_def ex_defs)
  have procs: "sensors_proc_chips ex3_env = [ex_chip]"
    by (simp add: ex3_env_def ex_env_def)
  have m: "sensors_match_chip ?q ex_chip"
    by (simp add: sensors_match_chip_def)
  have all_chips: "sensors_do_chip_sets 0 ex3_env ?q ex_world
       = Some (- SENSORS_ERR_DIV_ZERO, ?w')"
    unfolding sensors_do_chip_sets_def
    by (simp add: detected_loop.simps sensors_get_detected_chips_def procs m this_chip
        SENSORS_ERR_DIV_ZERO_def)
  have len: "length (all_sets ex3_env ex_chip) = 3"
    by (simp add: all_sets_def config_chips_after_None sensors_match_chip_def tolower_def
        ex3_env_def ex_defs)
  note th = do_chip_sets_result [of 0 ex3_env ex_chip ex_world "- SENSORS_ERR_DIV_ZERO" ?w'
      ?q "- SENSORS_ERR_DIV_ZERO" ?w']
  show ?thesis
    using th this_chip all_chips len by simp
qed

text \<open>
  The claim as written fails on the same example: the first error met in the run is that of
  the first statement, \<^verbatim>\<open>SENSORS_ERR_NO_ENTRY\<close> for the unknown feature name, and the
  value returned is that of the second statement, \<^verbatim>\<open>-SENSORS_ERR_DIV_ZERO\<close>.
\<close>

theorem do_chip_sets_first_error_counterexample:
  "set_statuses 0 ex3_env ex_chip (all_sets ex3_env ex_chip) [] ex_world
       = [SENSORS_ERR_NO_ENTRY, - SENSORS_ERR_DIV_ZERO, 0]
   \<and> first_error [SENSORS_ERR_NO_ENTRY, - SENSORS_ERR_DIV_ZERO, 0] = SENSORS_ERR_NO_ENTRY
   \<and> matching_detected ex3_env \<lparr>cn_prefix = None, cn_bus = BUS_ANY, cn_addr = None\<rparr>
       = [ex_chip]
   \<and> sensors_do_chip_sets 0 ex3_env \<lparr>cn_prefix = None, cn_bus = BUS_ANY, cn_addr = None\<rparr>
        ex_world
       = Some (- SENSORS_ERR_DIV_ZERO,
           \<lparr>hw = (), trace = [EvParseError ''Unknown feature name'' 1,
                               EvParseError ''Error parsing expression'' 2,
                               EvWrite ex_chip 2 3]\<rparr>)
   \<and> - SENSORS_ERR_DIV_ZERO \<noteq> SENSORS_ERR_NO_ENTRY"
proof -
  let ?w' = "\<lparr>hw = (), trace = [EvParseError ''Unknown feature name'' 1,
                               EvParseError ''Error parsing expression'' 2,
                               EvWrite ex_chip 2 3]\<rparr> :: unit world"
  let ?q = "\<lparr>cn_prefix = None, cn_bus = BUS_ANY, cn_addr = None\<rparr>"
  have sets3: "all_sets ex3_env ex_chip
      = [\<lparr>set_name = ''in9'', set_value = Kind_val 1, set_lineno = 1\<rparr>,
         \<lparr>set_name = ''in0'',
          set_value = Kind_sub sensors_divide (Kind_val 1) (Some (Kind_val 0)),
          set_lineno = 2\<rparr>,
         \<lparr>set_name = ''in1'', set_value = Kind_val 3, set_lineno = 3\<rparr>]"
    by (simp add: all_sets_def config_chips_after_None sensors_match_chip_def tolower_def
        ex3_env_def ex_defs)
  have sts: "set_statuses 0 ex3_env ex_chip (all_sets ex3_env ex_chip) [] ex_world
       = [SENSORS_ERR_NO_ENTRY, - SENSORS_ERR_DIV_ZERO, 0]"
    unfolding sets3
    by (simp add: run_defs err_defs ex3_env_def ex_defs)
  have fe: "first_error [SENSORS_ERR_NO_ENTRY, - SENSORS_ERR_DIV_ZERO, 0] = SENSORS_ERR_NO_ENTRY"
    by (simp add: first_error_def err_defs)
  have this_chip: "sensors_do_this_chip_sets 0 ex3_env ex_chip ex_world
       = Some (- SENSORS_ERR_DIV_ZERO, ?w')"
    unfolding sensors_do_this_chip_sets_def
    by (simp add: run_defs err_defs ex3_env_def ex_defs)
  have procs: "sensors_proc_chips ex3_env = [ex_chip]"
    by (simp add: ex3_env_def ex_env_def)
  have m: "sensors_match_chip ?q ex_chip"
    by (simp add: sensors_match_chip_def)
  have md: "matching_detected ex3_env ?q = [ex_chip]"
    by (simp add: matching_detected_def procs m)
  have all_chips: "sensors_do_chip_sets 0 ex3_env ?q ex_world
       = Some (- SENSORS_ERR_DIV_ZERO, ?w')"
    unfolding sensors_do_chip_sets_def
    by (simp add: detected_loop.simps sensors_get_detected_chips_def procs m this_chip
        SENSORS_ERR_DIV_ZERO_def)
  have ne: "- SENSORS_ERR_DIV_ZERO \<noteq> SENSORS_ERR_NO_ENTRY"
    by (simp add: err_defs)
  show ?thesis
    using sts fe md all_chips ne by simp
qed

subsection \<open>C4: the compute statement applied by get\_value\<close>

text \<open>
  C4 (as amended). In the search of \<^verbatim>\<open>sensors_get_feature\<close> for a "from" expression over
  the matching configuration entries, scanned newest declaration first: within one entry a
  match on the alternate name is tentative, the scan of that entry goes on, and a statement
  named for the feature itself later in the entry replaces it and ends the search; but the
  first scanned entry that holds any match, on the main or on the alternate name, ends the
  scan over the entries. So for a concrete chip and a readable feature whose descriptors
  resolve and whose raw value \<open>raw\<close> can be read, the result is \<open>raw\<close> when no entry
  holds a match, and otherwise the value at \<open>raw\<close> of the expression that
  \<open>first_from_expr\<close> selects. In particular, if an entry scanned earlier holds only an
  alternate-name match, its last alternate-name statement is the one applied, whatever the
  entries scanned later hold.
\<close>

theorem get_feature_from_expr:
  assumes conc: "\<not> sensors_chip_name_has_wildcards name"
    and pfx: "cn_prefix name = Some pfx"
    and mainf: "sensors_lookup_feature_nr (sensors_chip_features_list env) pfx feature = Some mf"
    and altf: "(fd_compute_mapping (data mf) = None \<and> alt = None)
               \<or> (\<exists>m a. fd_compute_mapping (data mf) = Some m
                     \<and> sensors_lookup_feature_nr (sensors_chip_features_list env) pfx m = Some a
                     \<and> alt = Some a)"
    and readable: "fd_mode (data mf) AND SENSORS_MODE_R \<noteq> 0"
    and raw: "read_proc env (hw w) name feature = Some raw"
  shows "sensors_get_feature n env w name feature r =
           (case first_from_expr (config_chips_after (sensors_config_chips env) name None)
                   (fd_name (data mf)) alt of
              None \<Rightarrow> Some (0, raw)
            | Some e \<Rightarrow> sensors_eval_expr n env w name e raw r)"
proof -
  have "sensors_get_feature n env w name feature r =
          get_feature_tail (sensors_eval_expr n env w name) env w name feature mf alt r"
    using conc pfx mainf altf
    by (auto simp: sensors_get_feature_unfold get_feature_with_def)
  also have "\<dots> = (case first_from_expr (config_chips_after (sensors_config_chips env) name None)
                   (fd_name (data mf)) alt of
              None \<Rightarrow> Some (0, raw)
            | Some e \<Rightarrow> sensors_eval_expr n env w name e raw r)"
    using readable raw
    by (simp add: get_feature_tail_def from_chips_loop_char split: option.splits)
  finally show ?thesis .
qed

text \<open>
  The theorem on the example: the entry scanned first names only the alternate feature, and
  its expression (a tenth of the raw value 10) is the one applied.
\<close>

theorem get_feature_from_expr_witness:
  "\<not> sensors_chip_name_has_wildcards ex_chip
   \<and> cn_prefix ex_chip = Some ''lm78''
   \<and> sensors_lookup_feature_nr (sensors_chip_features_list ex4_env) ''lm78'' 2
       = Some (mk_feature 2 ''temp1_max'' (Some 1) (Some 1) 3)
   \<and> sensors_lookup_feature_nr (sensors_chip_features_list ex4_env) ''lm78'' 1
       = Some (mk_feature 1 ''temp1'' None None 3)
   \<and> fd_mode (data (mk_feature 2 ''temp1_max'' (Some 1) (Some 1) 3)) AND SENSORS_MODE_R \<noteq> 0
   \<and> read_proc ex4_env (hw ex_world) ex_chip 2 = Some 10
   \<and> config_chips_after (sensors_config_chips ex4_env) ex_chip None
       = [ex4_alt_entry, ex4_main_entry]
   \<and> first_from_expr [ex4_alt_entry, ex4_main_entry] ''temp1_max''
        (Some (mk_feature 1 ''temp1'' None None 3))
       = Some (Kind_sub sensors_divide Kind_source (Some (Kind_val 10)))
   \<and> sensors_get_feature 0 ex4_env ex_world ex_chip 2 0 = Some (0, 1)"
proof -
  have conc: "\<not> sensors_chip_name_has_wildcards ex_chip"
    by (simp add: sensors_chip_name_has_wildcards_def ex_chip_def)
  have pfx: "cn_prefix ex_chip = Some ''lm78''"
    by (simp add: ex_chip_def)
  have l2: "sensors_lookup_feature_nr (sensors_chip_features_list ex4_env) ''lm78'' 2
       = Some (mk_feature 2 ''temp1_max'' (Some 1) (Some 1) 3)"
    by (simp add: ex4_env_def ex_defs tolower_def)
  have l1: "sensors_lookup_feature_nr (sensors_chip_features_list ex4_env) ''lm78'' 1
       = Some (mk_feature 1 ''temp1'' None None 3)"
    by (simp add: ex4_env_def ex_defs tolower_def)
  have alt: "(fd_compute_mapping (data (mk_feature 2 ''temp1_max'' (Some 1) (Some 1) 3)) = None
                \<and> Some (mk_feature 1 ''temp1'' None None 3) = None)
             \<or> (\<exists>m a. fd_compute_mapping (data (mk_feature 2 ''temp1_max'' (Some 1) (Some 1) 3))
                        = Some m
                   \<and> sensors_lookup_feature_nr (sensors_chip_features_list ex4_env) ''lm78'' m
                        = Some a
                   \<and> Some (mk_feature 1 ''temp1'' None None 3) = Some a)"
    using l1 by (simp add: mk_feature_def)
  have rd: "fd_mode (data (mk_feature 2 ''temp1_max'' (Some 1) (Some 1) 3)) AND SENSORS_MODE_R \<noteq> 0"
    by (simp add: mk_feature_def SENSORS_MODE_R_def)
  have raw: "read_proc ex4_env (hw ex_world) ex_chip 2 = Some 10"
    by (simp add: ex4_env_def ex_defs)
  have scan: "config_chips_after (sensors_config_chips ex4_env) ex_chip None
       = [ex4_alt_entry, ex4_main_entry]"
    by (simp add: config_chips_after_None ex4_env_def ex4_alt_entry_def ex4_main_entry_def
        ex_defs sensors_match_chip_def tolower_def)
  have sel: "first_from_expr [ex4_alt_entry, ex4_main_entry] ''temp1_max''
        (Some (mk_feature 1 ''temp1'' None None 3))
       = Some (Kind_sub sensors_divide Kind_source (Some (Kind_val 10)))"
    by (simp add: entry_from_expr_def alt_matches_def ex4_alt_entry_def ex4_main_entry_def
        ex_defs tolower_def)
  have ev: "sensors_eval_expr 0 ex4_env ex_world ex_chip
       (Kind_sub sensors_divide Kind_source (Some (Kind_val 10))) 10 0 = Some (0, 1)"
    by (simp add: sensors_eval_expr_def)
  have nm: "fd_name (data (mk_feature 2 ''temp1_max'' (Some 1) (Some 1) 3)) = ''temp1_max''"
    by (simp add: mk_feature_def)
  from get_feature_from_expr [OF conc pfx l2 alt rd raw, of 0 0, unfolded scan nm sel]
  have "sensors_get_feature 0 ex4_env ex_world ex_chip 2 0 = Some (0, 1)"
    by (simp only: option.case ev)
  then show ?thesis using conc pfx l2 l1 rd raw scan sel by simp
qed

text \<open>
  The claim as written fails on the same example: the entry scanned first holds only an
  alternate-name match, the entry scanned second holds a statement named for the feature
  itself, whose expression would turn the raw value 10 into 20; the call yields 1, the value
  of the alternate-name expression.
\<close>

theorem get_feature_later_main_counterexample:
  "config_chips_after (sensors_config_chips ex4_env) ex_chip None
       = [ex4_alt_entry, ex4_main_entry]
   \<and> map compute_name (computes ex4_alt_entry) = [''temp1'']
   \<and> map compute_name (computes ex4_main_entry) = [''temp1_max'']
   \<and> sensors_eval_expr 0 ex4_env ex_world ex_chip
        (from_proc (hd (computes ex4_main_entry))) 10 0 = Some (0, 20)
   \<and> sensors_eval_expr 0 ex4_env ex_world ex_chip
        (from_proc (hd (computes ex4_alt_entry))) 10 0 = Some (0, 1)
   \<and> sensors_get_feature 0 ex4_env ex_world ex_chip 2 0 = Some (0, 1)"
proof -
  have scan: "config_chips_after (sensors_config_chips ex4_env) ex_chip None
       = [ex4_alt_entry, ex4_main_entry]"
    by (simp add: config_chips_after_None ex4_env_def ex4_alt_entry_def ex4_main_entry_def
        ex_defs sensors_match_chip_def tolower_def)
  have names: "map compute_name (computes ex4_alt_entry) = [''temp1'']"
    "map compute_name (computes ex4_main_entry) = [''temp1_max'']"
    by (simp_all add: ex4_alt_entry_def ex4_main_entry_def)
  have ev: "sensors_eval_expr 0 ex4_env ex_world ex_chip
        (from_proc (hd (computes ex4_main_entry))) 10 0 = Some (0, 20)"
    "sensors_eval_expr 0 ex4_env ex_world ex_chip
        (from_proc (hd (computes ex4_alt_entry))) 10 0 = Some (0, 1)"
    by (simp_all add: sensors_eval_expr_def ex4_alt_entry_def ex4_main_entry_def)
  have cat: "sensors_chip_features_list ex4_env =
      [\<lparr>cf_prefix = ''lm78'', cf_feature = [mk_feature 1 ''temp1'' None None 3,
          mk_feature 2 ''temp1_max'' (Some 1) (Some 1) 3]\<rparr>]"
    by (simp add: ex4_env_def ex_env_def)
  have get: "sensors_get_feature 0 ex4_env ex_world ex_chip 2 0 = Some (0, 1)"
    unfolding sensors_get_feature.simps get_feature_with_def get_feature_tail_def scan cat
    by (simp add: sensors_chip_name_has_wildcards_def alt_matches_def SENSORS_MODE_R_def
        ex4_env_def ex4_alt_entry_def ex4_main_entry_def ex_defs tolower_def)
  show ?thesis using scan names ev get by simp
qed

subsection \<open>C5: the alternate descriptor of get\_ignored\<close>

text \<open>
  C5 (as amended). \<^verbatim>\<open>sensors_get_ignored\<close> resolves the alternate descriptor of the
  queried feature through the \<open>mapping\<close> field of its descriptor \<open>f\<close>, not through
  \<open>compute_mapping\<close>: when \<open>mapping\<close> is \<^verbatim>\<open>SENSORS_NO_MAPPING\<close> there is no alternate
  and only the name of \<open>f\<close> is looked for in the ignore statements; when \<open>mapping\<close> names
  a feature number that the catalogue lacks, the call fails with
  \<^verbatim>\<open>-SENSORS_ERR_NO_ENTRY\<close>; and when it names a feature \<open>a\<close> of the catalogue, the
  names of \<open>f\<close> and of \<open>a\<close> are looked for.
\<close>

theorem get_ignored_alternate_by_mapping:
  assumes conc: "\<not> sensors_chip_name_has_wildcards name"
    and pfx: "cn_prefix name = Some pfx"
    and mainf: "sensors_lookup_feature_nr (sensors_chip_features_list env) pfx feature = Some f"
  shows "(fd_mapping (data f) = None \<longrightarrow>
            sensors_get_ignored env name feature =
              (if \<exists>chip\<in>set (config_chips_after (sensors_config_chips env) name None).
                    \<exists>ig\<in>set (ignores chip). strcasecmp (fd_name (data f)) (ignore_name ig) = 0
               then 0 else 1))
       \<and> (\<forall>m. fd_mapping (data f) = Some m
              \<and> sensors_lookup_feature_nr (sensors_chip_features_list env) pfx m = None \<longrightarrow>
            sensors_get_ignored env name feature = - SENSORS_ERR_NO_ENTRY)
       \<and> (\<forall>m a. fd_mapping (data f) = Some m
              \<and> sensors_lookup_feature_nr (sensors_chip_features_list env) pfx m = Some a \<longrightarrow>
            sensors_get_ignored env name feature =
              (if \<exists>chip\<in>set (config_chips_after (sensors_config_chips env) name None).
                    \<exists>ig\<in>set (ignores chip).
                      strcasecmp (fd_name (data f)) (ignore_name ig) = 0
                      \<or> strcasecmp (fd_name (data a)) (ignore_name ig) = 0
               then 0 else 1))"
  using conc pfx mainf
  by (simp add: sensors_get_ignored_def ignore_chips_loop_char alt_matches_def)

text \<open>
  The theorem at a catalogue where feature 1 has a \<open>compute_mapping\<close> to the missing
  number 77 and no \<open>mapping\<close>, feature 2 has a \<open>mapping\<close> to 77 and no
  \<open>compute_mapping\<close>, and feature 3 has a \<open>mapping\<close> to feature 1.
\<close>

theorem get_ignored_alternate_by_mapping_witness:
  "\<not> sensors_chip_name_has_wildcards ex_chip
   \<and> cn_prefix ex_chip = Some ''lm78''
   \<and> sensors_lookup_feature_nr (sensors_chip_features_list ex5_env) ''lm78'' 1
       = Some (mk_feature 1 ''fan1'' None (Some 77) 3)
   \<and> sensors_lookup_feature_nr (sensors_chip_features_list ex5_env) ''lm78'' 2
       = Some (mk_feature 2 ''fan1_div'' (Some 77) None 3)
   \<and> sensors_lookup_feature_nr (sensors_chip_features_list ex5_env) ''lm78'' 3
       = Some (mk_feature 3 ''fan1_min'' (Some 1) None 3)
   \<and> sensors_lookup_feature_nr (sensors_chip_features_list ex5_env) ''lm78'' 77 = None
   \<and> sensors_get_ignored ex5_env ex_chip 1 = 1
   \<and> sensors_get_ignored ex5_env ex_chip 2 = - SENSORS_ERR_NO_ENTRY
   \<and> sensors_get_ignored ex5_env ex_chip 3 = 1"
proof -
  have conc: "\<not> sensors_chip_name_has_wildcards ex_chip"
    by (simp add: sensors_chip_name_has_wildcards_def ex_chip_def)
  have pfx: "cn_prefix ex_chip = Some ''lm78''"
    by (simp add: ex_chip_def)
  have l1: "sensors_lookup_feature_nr (sensors_chip_features_list ex5_env) ''lm78'' 1
       = Some (mk_feature 1 ''fan1'' None (Some 77) 3)"
    by (simp add: ex5_env_def ex_defs tolower_def)
  have l2: "sensors_lookup_feature_nr (sensors_chip_features_list ex5_env) ''lm78'' 2
       = Some (mk_feature 2 ''fan1_div'' (Some 77) None 3)"
    by (simp add: ex5_env_def ex_defs tolower_def)
  have l3: "sensors_lookup_feature_nr (sensors_chip_features_list ex5_env) ''lm78'' 3
       = Some (mk_feature 3 ''fan1_min'' (Some 1) None 3)"
    by (simp add: ex5_env_def ex_defs tolower_def)
  have l77: "sensors_lookup_feature_nr (sensors_chip_features_list ex5_env) ''lm78'' 77 = None"
    by (simp add: ex5_env_def ex_defs tolower_def)
  have noign: "config_chips_after (sensors_config_chips ex5_env) ex_chip None
       = [\<lparr>fits = [ex_fit], labels = [], sets = [], computes = [], ignores = []\<rparr>]"
    by (simp add: config_chips_after_None ex5_env_def ex_defs sensors_match_chip_def tolower_def)
  from get_ignored_alternate_by_mapping [OF conc pfx l1]
  have r1: "sensors_get_ignored ex5_env ex_chip 1 = 1"
    by (simp add: noign mk_feature_def)
  from get_ignored_alternate_by_mapping [OF conc pfx l2] l77
  have r2: "sensors_get_ignored ex5_env ex_chip 2 = - SENSORS_ERR_NO_ENTRY"
    by (simp add: mk_feature_def)
  from get_ignored_alternate_by_mapping [OF conc pfx l3] l1
  have r3: "sensors_get_ignored ex5_env ex_chip 3 = 1"
    by (simp add: noign mk_feature_def)
  show ?thesis using conc pfx l1 l2 l3 l77 r1 r2 r3 by simp
qed

text \<open>
  The claim as written fails at that catalogue: feature 1 declares a \<open>compute_mapping\<close>
  whose target is missing, and the call succeeds with 1; feature 2 has no
  \<open>compute_mapping\<close>, and the call fails.
\<close>

theorem get_ignored_compute_mapping_counterexample:
  "fd_compute_mapping (data (mk_feature 1 ''fan1'' None (Some 77) 3)) = Some 77
   \<and> sensors_lookup_feature_nr (sensors_chip_features_list ex5_env) ''lm78'' 1
       = Some (mk_feature 1 ''fan1'' None (Some 77) 3)
   \<and> sensors_lookup_feature_nr (sensors_chip_features_list ex5_env) ''lm78'' 77 = None
   \<and> sensors_get_ignored ex5_env ex_chip 1 = 1
   \<and> sensors_get_ignored ex5_env ex_chip 1 \<noteq> - SENSORS_ERR_NO_ENTRY
   \<and> fd_compute_mapping (data (mk_feature 2 ''fan1_div'' (Some 77) None 3)) = None
   \<and> sensors_lookup_feature_nr (sensors_chip_features_list ex5_env) ''lm78'' 2
       = Some (mk_feature 2 ''fan1_div'' (Some 77) None 3)
   \<and> sensors_get_ignored ex5_env ex_chip 2 = - SENSORS_ERR_NO_ENTRY"
  by (simp add: sensors_get_ignored_def sensors_chip_name_has_wildcards_def
      config_chips_after_None ex5_env_def ex_defs err_defs sensors_match_chip_def tolower_def)

subsection \<open>C6: what get\_ignored answers\<close>

text \<open>
  C6. For a concrete chip and a feature whose descriptor \<open>f\<close> and alternate descriptor
  \<open>alt\<close> (if any) resolve, \<^verbatim>\<open>sensors_get_ignored\<close> answers 0 (ignored) whenever some
  matching configuration entry has an ignore statement whose name equals the name of \<open>f\<close>
  up to case, wherever that entry stands in the scan and whatever matches the alternate
  name; it also answers 0 when some ignore statement matches only the name of \<open>alt\<close>; and
  it answers 1 (visible) when no ignore statement of any matching entry matches either name.
\<close>

theorem get_ignored_exact_and_alternate:
  assumes conc: "\<not> sensors_chip_name_has_wildcards name"
    and pfx: "cn_prefix name = Some pfx"
    and mainf: "sensors_lookup_feature_nr (sensors_chip_features_list env) pfx feature = Some f"
    and altf: "(fd_mapping (data f) = None \<and> alt = None)
               \<or> (\<exists>m a. fd_mapping (data f) = Some m
                     \<and> sensors_lookup_feature_nr (sensors_chip_features_list env) pfx m = Some a
                     \<and> alt = Some a)"
  shows "((\<exists>chip\<in>set (config_chips_after (sensors_config_chips env) name None).
             \<exists>ig\<in>set (ignores chip). strcasecmp (fd_name (data f)) (ignore_name ig) = 0)
            \<longrightarrow> sensors_get_ignored env name feature = 0)
       \<and> ((\<exists>chip\<in>set (config_chips_after (sensors_config_chips env) name None).
             \<exists>ig\<in>set (ignores chip). alt_matches alt (ignore_name ig))
            \<longrightarrow> sensors_get_ignored env name feature = 0)
       \<and> (\<not> (\<exists>chip\<in>set (config_chips_after (sensors_config_chips env) name None).
                \<exists>ig\<in>set (ignores chip). strcasecmp (fd_name (data f)) (ignore_name ig) = 0
                   \<or> alt_matches alt (ignore_name ig))
            \<longrightarrow> sensors_get_ignored env name feature = 1)"
proof -
  have "sensors_get_ignored env name feature =
          ignore_chips_loop (config_chips_after (sensors_config_chips env) name None)
            (fd_name (data f)) alt 1"
    using conc pfx mainf altf by (auto simp: sensors_get_ignored_def)
  then show ?thesis
    by (simp add: ignore_chips_loop_char)
qed

theorem get_ignored_exact_and_alternate_witness:
  "\<not> sensors_chip_name_has_wildcards ex_chip
   \<and> sensors_lookup_feature_nr (sensors_chip_features_list ex6_env) ''lm78'' 2
       = Some (mk_feature 2 ''in0_min'' (Some 1) (Some 1) 3)
   \<and> sensors_lookup_feature_nr (sensors_chip_features_list ex6_env) ''lm78'' 1
       = Some (mk_feature 1 ''in0'' None None 3)
   \<and> sensors_get_ignored ex6_env ex_chip 2 = 0
   \<and> sensors_get_ignored ex6_env ex_chip 1 = 0"
proof -
  have conc: "\<not> sensors_chip_name_has_wildcards ex_chip"
    by (simp add: sensors_chip_name_has_wildcards_def ex_chip_def)
  have pfx: "cn_prefix ex_chip = Some ''lm78''"
    by (simp add: ex_chip_def)
  have l2: "sensors_lookup_feature_nr (sensors_chip_features_list ex6_env) ''lm78'' 2
       = Some (mk_feature 2 ''in0_min'' (Some 1) (Some 1) 3)"
    by (simp add: ex6_env_def ex_defs tolower_def)
  have l1: "sensors_lookup_feature_nr (sensors_chip_features_list ex6_env) ''lm78'' 1
       = Some (mk_feature 1 ''in0'' None None 3)"
    by (simp add: ex6_env_def ex_defs tolower_def)
  have cfg: "config_chips_after (sensors_config_chips ex6_env) ex_chip None
       = sensors_config_chips ex6_env"
    by (simp add: config_chips_after_None ex6_env_def ex_defs sensors_match_chip_def tolower_def)
  have a2: "(fd_mapping (data (mk_feature 2 ''in0_min'' (Some 1) (Some 1) 3)) = None \<and> Some (mk_feature 1 ''in0'' None None 3) = None)
               \<or> (\<exists>m a. fd_mapping (data (mk_feature 2 ''in0_min'' (Some 1) (Some 1) 3)) = Some m
                     \<and> sensors_lookup_feature_nr (sensors_chip_features_list ex6_env) ''lm78'' m = Some a
                     \<and> Some (mk_feature 1 ''in0'' None None 3) = Some a)"
    using l1 by (simp add: mk_feature_def)
  have a1: "(fd_mapping (data (mk_feature 1 ''in0'' None None 3)) = None \<and> (None :: sensors_chip_feature option) = None)
               \<or> (\<exists>m a. fd_mapping (data (mk_feature 1 ''in0'' None None 3)) = Some m
                     \<and> sensors_lookup_feature_nr (sensors_chip_features_list ex6_env) ''lm78'' m = Some a
                     \<and> None = Some a)"
    by (simp add: mk_feature_def)
  have m2: "\<exists>chip\<in>set (config_chips_after (sensors_config_chips ex6_env) ex_chip None).
             \<exists>ig\<in>set (ignores chip). alt_matches (Some (mk_feature 1 ''in0'' None None 3)) (ignore_name ig)"
    unfolding cfg by (simp add: ex6_env_def ex_defs alt_matches_def tolower_def)
  have m1: "\<exists>chip\<in>set (config_chips_after (sensors_config_chips ex6_env) ex_chip None).
             \<exists>ig\<in>set (ignores chip). strcasecmp (fd_name (data (mk_feature 1 ''in0'' None None 3))) (ignore_name ig) = 0"
    unfolding cfg by (simp add: ex6_env_def ex_defs tolower_def)
  from get_ignored_exact_and_alternate [OF conc pfx l2 a2] m2
  have r2: "sensors_get_ignored ex6_env ex_chip 2 = 0" by blast
  from get_ignored_exact_and_alternate [OF conc pfx l1 a1] m1
  have r1: "sensors_get_ignored ex6_env ex_chip 1 = 0" by blast
  show ?thesis using conc l1 l2 r1 r2 by simp
qed

subsection \<open>C7: division and logarithm\<close>

text \<open>
  C7. For every chip, source value and subexpressions \<open>a\<close>, \<open>b\<close>, \<open>x\<close>, at every bound
  on the recursion: when \<open>a\<close> and \<open>b\<close> evaluate to \<open>va\<close> and \<open>vb\<close>, the division of
  \<open>a\<close> by \<open>b\<close> fails with \<^verbatim>\<open>-SENSORS_ERR_DIV_ZERO\<close> exactly when \<open>vb\<close> is 0 and
  otherwise yields \<open>va / vb\<close>; when \<open>x\<close> evaluates to \<open>vx\<close>, the logarithm of \<open>x\<close>
  fails with the same code exactly when \<open>vx < 0\<close> and otherwise yields \<open>ln vx\<close>; and
  when an operand fails with a code \<open>e\<close>, the node fails with \<open>e\<close>, the operation is not
  applied and, for a failing first operand of a division, the second operand is not
  evaluated (the result does not depend on it). A failing node leaves the result as it was.
\<close>

theorem eval_divide_log:
  "(sensors_eval_expr n env w c a val (uninit env) = Some (0, va)
     \<and> sensors_eval_expr n env w c b val (uninit env) = Some (0, vb) \<longrightarrow>
      sensors_eval_expr n env w c (Kind_sub sensors_divide a (Some b)) val r =
        (if vb = 0 then Some (- SENSORS_ERR_DIV_ZERO, r) else Some (0, va / vb))
      \<and> - SENSORS_ERR_DIV_ZERO \<noteq> 0)
   \<and> (sensors_eval_expr n env w c a val (uninit env) = Some (e, va) \<and> e \<noteq> 0 \<longrightarrow>
      sensors_eval_expr n env w c (Kind_sub sensors_divide a (Some b)) val r = Some (e, r))
   \<and> (sensors_eval_expr n env w c a val (uninit env) = Some (0, va)
     \<and> sensors_eval_expr n env w c b val (uninit env) = Some (e, vb) \<and> e \<noteq> 0 \<longrightarrow>
      sensors_eval_expr n env w c (Kind_sub sensors_divide a (Some b)) val r = Some (e, r))
   \<and> (sensors_eval_expr n env w c x val (uninit env) = Some (0, vx) \<longrightarrow>
      sensors_eval_expr n env w c (Kind_sub sensors_log x None) val r =
        (if vx < 0 then Some (- SENSORS_ERR_DIV_ZERO, r) else Some (0, ln vx)))
   \<and> (sensors_eval_expr n env w c x val (uninit env) = Some (e, vx) \<and> e \<noteq> 0 \<longrightarrow>
      sensors_eval_expr n env w c (Kind_sub sensors_log x None) val r = Some (e, r))"
  by (simp add: sensors_eval_expr_def SENSORS_ERR_DIV_ZERO_def)

text \<open>
  The theorem at the expressions of the spec's examples: 4 / 2, 4 / 0, the logarithms of 1
  and of -1, and a division whose first operand is itself a division by zero.
\<close>

theorem eval_divide_log_witness:
  "sensors_eval_expr 0 ex6_env ex_world ex_chip
      (Kind_sub sensors_divide (Kind_val 4) (Some (Kind_val 2))) 0 7 = Some (0, 2)
   \<and> sensors_eval_expr 0 ex6_env ex_world ex_chip
      (Kind_sub sensors_divide (Kind_val 4) (Some (Kind_val 0))) 0 7
       = Some (- SENSORS_ERR_DIV_ZERO, 7)
   \<and> sensors_eval_expr 0 ex6_env ex_world ex_chip
      (Kind_sub sensors_log (Kind_val 1) None) 0 7 = Some (0, 0)
   \<and> sensors_eval_expr 0 ex6_env ex_world ex_chip
      (Kind_sub sensors_log (Kind_val (- 1)) None) 0 7 = Some (- SENSORS_ERR_DIV_ZERO, 7)
   \<and> sensors_eval_expr 0 ex6_env ex_world ex_chip
      (Kind_sub sensors_divide (Kind_sub sensors_divide (Kind_val 4) (Some (Kind_val 0)))
         (Some (Kind_val 2))) 0 7 = Some (- SENSORS_ERR_DIV_ZERO, 7)
   \<and> sensors_eval_expr 0 ex6_env ex_world ex_chip
      (Kind_sub sensors_divide (Kind_val 2)
         (Some (Kind_sub sensors_log (Kind_val (- 1)) None))) 0 7
       = Some (- SENSORS_ERR_DIV_ZERO, 7)
   \<and> sensors_eval_expr 0 ex6_env ex_world ex_chip
      (Kind_sub sensors_log (Kind_sub sensors_divide (Kind_val 4) (Some (Kind_val 0))) None) 0 7
       = Some (- SENSORS_ERR_DIV_ZERO, 7)"
proof -
  have v4: "sensors_eval_expr 0 ex6_env ex_world ex_chip (Kind_val 4) 0 (uninit ex6_env)
      = Some (0, 4)"
    by (simp add: sensors_eval_expr_def)
  have v2: "sensors_eval_expr 0 ex6_env ex_world ex_chip (Kind_val 2) 0 (uninit ex6_env)
      = Some (0, 2)"
    by (simp add: sensors_eval_expr_def)
  have v0: "sensors_eval_expr 0 ex6_env ex_world ex_chip (Kind_val 0) 0 (uninit ex6_env)
      = Some (0, 0)"
    by (simp add: sensors_eval_expr_def)
  have v1: "sensors_eval_expr 0 ex6_env ex_world ex_chip (Kind_val 1) 0 (uninit ex6_env)
      = Some (0, 1)"
    by (simp add: sensors_eval_expr_def)
  have vm: "sensors_eval_expr 0 ex6_env ex_world ex_chip (Kind_val (- 1)) 0 (uninit ex6_env)
      = Some (0, - 1)"
    by (simp add: sensors_eval_expr_def)
  have nz: "- SENSORS_ERR_DIV_ZERO \<noteq> 0"
    by (simp add: SENSORS_ERR_DIV_ZERO_def)
  have d42: "sensors_eval_expr 0 ex6_env ex_world ex_chip
      (Kind_sub sensors_divide (Kind_val 4) (Some (Kind_val 2))) 0 7 = Some (0, 2)"
    using eval_divide_log [of 0 ex6_env ex_world ex_chip "Kind_val 4" 0 4 "Kind_val 2" 2 7]
      v4 v2 by simp
  have d40: "sensors_eval_expr 0 ex6_env ex_world ex_chip
      (Kind_sub sensors_divide (Kind_val 4) (Some (Kind_val 0))) 0 r
       = Some (- SENSORS_ERR_DIV_ZERO, r)" for r
    using eval_divide_log [of 0 ex6_env ex_world ex_chip "Kind_val 4" 0 4 "Kind_val 0" 0 r]
      v4 v0 by simp
  have l1: "sensors_eval_expr 0 ex6_env ex_world ex_chip
      (Kind_sub sensors_log (Kind_val 1) None) 0 7 = Some (0, 0)"
    using eval_divide_log [where n = 0 and env = ex6_env and w = ex_world and c = ex_chip
        and x = "Kind_val 1" and val = 0 and vx = 1 and r = 7] v1
    by simp
  have lm: "sensors_eval_expr 0 ex6_env ex_world ex_chip
      (Kind_sub sensors_log (Kind_val (- 1)) None) 0 r = Some (- SENSORS_ERR_DIV_ZERO, r)" for r
    using eval_divide_log [where n = 0 and env = ex6_env and w = ex_world and c = ex_chip
        and x = "Kind_val (- 1)" and val = 0 and vx = "- 1" and r = r] vm
    by simp
  have dd: "sensors_eval_expr 0 ex6_env ex_world ex_chip
      (Kind_sub sensors_divide (Kind_sub sensors_divide (Kind_val 4) (Some (Kind_val 0)))
         (Some (Kind_val 2))) 0 7 = Some (- SENSORS_ERR_DIV_ZERO, 7)"
    using eval_divide_log [where n = 0 and env = ex6_env and w = ex_world and c = ex_chip
        and a = "Kind_sub sensors_divide (Kind_val 4) (Some (Kind_val 0))"
        and b = "Kind_val 2" and val = 0 and e = "- SENSORS_ERR_DIV_ZERO"
        and va = "uninit ex6_env" and r = 7]
      d40 [of "uninit ex6_env"] nz
    by simp
  have dl: "sensors_eval_expr 0 ex6_env ex_world ex_chip
      (Kind_sub sensors_divide (Kind_val 2)
         (Some (Kind_sub sensors_log (Kind_val (- 1)) None))) 0 7
       = Some (- SENSORS_ERR_DIV_ZERO, 7)"
    using eval_divide_log [where n = 0 and env = ex6_env and w = ex_world and c = ex_chip
        and a = "Kind_val 2" and b = "Kind_sub sensors_log (Kind_val (- 1)) None"
        and val = 0 and e = "- SENSORS_ERR_DIV_ZERO" and va = 2
        and vb = "uninit ex6_env" and r = 7]
      v2 lm [of "uninit ex6_env"] nz
    by simp
  have ld: "sensors_eval_expr 0 ex6_env ex_world ex_chip
      (Kind_sub sensors_log (Kind_sub sensors_divide (Kind_val 4) (Some (Kind_val 0))) None) 0 7
       = Some (- SENSORS_ERR_DIV_ZERO, 7)"
    using eval_divide_log [where n = 0 and env = ex6_env and w = ex_world and c = ex_chip
        and x = "Kind_sub sensors_divide (Kind_val 4) (Some (Kind_val 0))"
        and val = 0 and e = "- SENSORS_ERR_DIV_ZERO" and vx = "uninit ex6_env" and r = 7]
      d40 [of "uninit ex6_env"] nz
    by simp
  show ?thesis using d42 d40 [of 7] l1 lm [of 7] dd dl ld by simp
qed

subsection \<open>C8: each feature is written at most once\<close>

text \<open>
  C8. Within one run of \<^verbatim>\<open>sensors_do_this_chip_sets\<close> for a chip, the calls of
  \<^verbatim>\<open>sensors_write_proc\<close> all go to that chip and no feature number is written twice,
  however many configuration entries or set statements name it. Hence, the detected chips
  being pairwise different, no pair of a chip and a feature number is written twice in one
  run of \<^verbatim>\<open>sensors_do_chip_sets\<close>. A set statement that resolves to a feature number
  already in the list of the run is skipped: it changes neither the error code, nor the list,
  nor the world.
\<close>

theorem sets_written_once:
  "(sensors_do_this_chip_sets n env name w = Some (err, w') \<longrightarrow>
      (\<exists>evs. trace w' = trace w @ evs \<and> distinct (writes_of evs)
         \<and> (\<forall>p\<in>set (writes_of evs). fst p = name)))
   \<and> (distinct (sensors_proc_chips env) \<and> sensors_do_chip_sets n env q w = Some (res, w'') \<longrightarrow>
      (\<exists>evs. trace w'' = trace w @ evs \<and> distinct (writes_of evs)))
   \<and> (cn_prefix name = Some pfx
      \<and> sensors_lookup_feature_name (sensors_chip_features_list env) pfx (set_name s)
          = Some feature
      \<and> fd_number (data feature) \<in> set fl \<longrightarrow>
      do_set n env name s (e, fl, w) = Some (e, fl, w))"
proof (intro conjI impI)
  assume "sensors_do_this_chip_sets n env name w = Some (err, w')"
  then show "\<exists>evs. trace w' = trace w @ evs \<and> distinct (writes_of evs)
         \<and> (\<forall>p\<in>set (writes_of evs). fst p = name)"
    by (rule do_this_chip_sets_writes)
next
  assume "distinct (sensors_proc_chips env) \<and> sensors_do_chip_sets n env q w = Some (res, w'')"
  then have "distinct (sensors_proc_chips env)"
    and "detected_loop n env q 0 (0, w) = Some (res, w'')"
    by (simp_all add: sensors_do_chip_sets_def)
  from detected_loop_writes [OF this]
  show "\<exists>evs. trace w'' = trace w @ evs \<and> distinct (writes_of evs)"
    by blast
next
  assume "cn_prefix name = Some pfx
      \<and> sensors_lookup_feature_name (sensors_chip_features_list env) pfx (set_name s)
          = Some feature
      \<and> fd_number (data feature) \<in> set fl"
  then show "do_set n env name s (e, fl, w) = Some (e, fl, w)"
    by (simp add: do_set_seen)
qed

text \<open>
  The theorem on the example of the spec, three entries with a set statement for the same
  feature: the statement of the entry declared last is carried out, the two others are
  skipped.
\<close>

theorem sets_written_once_witness:
  "sensors_do_this_chip_sets 0 ex8_env ex_chip ex_world
       = Some (0, \<lparr>hw = (), trace = [EvWrite ex_chip 2 3]\<rparr>)
   \<and> distinct (sensors_proc_chips ex8_env)
   \<and> sensors_do_chip_sets 0 ex8_env \<lparr>cn_prefix = None, cn_bus = BUS_ANY, cn_addr = None\<rparr> ex_world
       = Some (0, \<lparr>hw = (), trace = [EvWrite ex_chip 2 3]\<rparr>)
   \<and> (\<exists>evs. trace \<lparr>hw = (), trace = [EvWrite ex_chip 2 3]\<rparr> = trace ex_world @ evs
         \<and> distinct (writes_of evs))
   \<and> cn_prefix ex_chip = Some ''lm78''
   \<and> sensors_lookup_feature_name (sensors_chip_features_list ex8_env) ''lm78'' ''in0_min''
       = Some (mk_feature 2 ''in0_min'' (Some 1) (Some 1) 3)
   \<and> do_set 0 ex8_env ex_chip \<lparr>set_name = ''in0_min'', set_value = Kind_val 2, set_lineno = 2\<rparr>
        (0, [2], \<lparr>hw = (), trace = [EvWrite ex_chip 2 3]\<rparr>)
       = Some (0, [2], \<lparr>hw = (), trace = [EvWrite ex_chip 2 3]\<rparr>)"
proof -
  have this_chip: "sensors_do_this_chip_sets 0 ex8_env ex_chip ex_world
       = Some (0, \<lparr>hw = (), trace = [EvWrite ex_chip 2 3]\<rparr>)"
    unfolding sensors_do_this_chip_sets_def
    by (simp add: run_defs err_defs ex8_env_def ex_defs)
  have procs: "sensors_proc_chips ex8_env = [ex_chip]"
    by (simp add: ex8_env_def ex_env_def)
  have m: "sensors_match_chip \<lparr>cn_prefix = None, cn_bus = BUS_ANY, cn_addr = None\<rparr> ex_chip"
    by (simp add: sensors_match_chip_def)
  have all_chips: "sensors_do_chip_sets 0 ex8_env
        \<lparr>cn_prefix = None, cn_bus = BUS_ANY, cn_addr = None\<rparr> ex_world
       = Some (0, \<lparr>hw = (), trace = [EvWrite ex_chip 2 3]\<rparr>)"
    unfolding sensors_do_chip_sets_def
    by (simp add: detected_loop.simps sensors_get_detected_chips_def procs m this_chip)
  have pfx: "cn_prefix ex_chip = Some ''lm78''"
    by (simp add: ex_chip_def)
  have look: "sensors_lookup_feature_name (sensors_chip_features_list ex8_env) ''lm78''
        (set_name \<lparr>set_name = ''in0_min'', set_value = Kind_val 2, set_lineno = 2\<rparr>)
       = Some (mk_feature 2 ''in0_min'' (Some 1) (Some 1) 3)"
    by (simp add: ex8_env_def ex_defs tolower_def)
  have seen: "fd_number (data (mk_feature 2 ''in0_min'' (Some 1) (Some 1) 3)) \<in> set [2]"
    by (simp add: mk_feature_def)
  have d: "distinct (sensors_proc_chips ex8_env)"
    by (simp add: procs)
  note th = sets_written_once [of 0 ex8_env ex_chip ex_world 0
      "\<lparr>hw = (), trace = [EvWrite ex_chip 2 3]\<rparr>"
      "\<lparr>cn_prefix = None, cn_bus = BUS_ANY, cn_addr = None\<rparr>" 0
      "\<lparr>hw = (), trace = [EvWrite ex_chip 2 3]\<rparr>" "''lm78''"
      "\<lparr>set_name = ''in0_min'', set_value = Kind_val 2, set_lineno = 2\<rparr>"
      "mk_feature 2 ''in0_min'' (Some 1) (Some 1) 3" "[2]" 0]
  from th d all_chips have ex: "\<exists>evs. trace \<lparr>hw = (), trace = [EvWrite ex_chip 2 3]\<rparr>
        = trace ex_world @ evs \<and> distinct (writes_of evs)"
    by blast
  from sets_written_once [of 0 ex8_env ex_chip "\<lparr>hw = (), trace = [EvWrite ex_chip 2 3]\<rparr>" _ _
      _ _ _ "''lm78''"
      "\<lparr>set_name = ''in0_min'', set_value = Kind_val 2, set_lineno = 2\<rparr>"
      "mk_feature 2 ''in0_min'' (Some 1) (Some 1) 3" "[2]" 0] pfx look seen
  have skip: "do_set 0 ex8_env ex_chip
        \<lparr>set_name = ''in0_min'', set_value = Kind_val 2, set_lineno = 2\<rparr>
        (0, [2], \<lparr>hw = (), trace = [EvWrite ex_chip 2 3]\<rparr>)
       = Some (0, [2], \<lparr>hw = (), trace = [EvWrite ex_chip 2 3]\<rparr>)"
    by blast
  show ?thesis
    using this_chip d all_chips ex pfx look skip by simp
qed

subsection \<open>C9: wildcards in the chip name\<close>

text \<open>
  C9 (as amended). \<^verbatim>\<open>sensors_chip_name_has_wildcards\<close> holds exactly when the prefix is
  ANY, the bus is ANY or the any-I2C selector, or the address is ANY. Every call of
  \<^verbatim>\<open>sensors_get_label\<close>, \<^verbatim>\<open>sensors_get_ignored\<close>, \<^verbatim>\<open>sensors_get_feature\<close> or
  \<^verbatim>\<open>sensors_set_feature\<close> with such a chip name returns
  \<^verbatim>\<open>-SENSORS_ERR_WILDCARDS\<close>, whatever the catalogue, the configuration and the
  hardware are, and leaves the result and the world as they were; a call with any other
  chip name never returns \<^verbatim>\<open>-SENSORS_ERR_WILDCARDS\<close>.
\<close>

theorem wildcards_rejected:
  "(sensors_chip_name_has_wildcards name \<longleftrightarrow>
      cn_prefix name = None \<or> cn_bus name = BUS_ANY \<or> cn_bus name = BUS_ANY_I2C
      \<or> cn_addr name = None)
   \<and> (sensors_chip_name_has_wildcards name \<longrightarrow>
        sensors_get_label env name feature = (- SENSORS_ERR_WILDCARDS, None)
        \<and> sensors_get_ignored env name feature = - SENSORS_ERR_WILDCARDS
        \<and> sensors_get_feature n env w name feature r = Some (- SENSORS_ERR_WILDCARDS, r)
        \<and> sensors_set_feature n env name feature v w = Some (- SENSORS_ERR_WILDCARDS, w))
   \<and> (\<not> sensors_chip_name_has_wildcards name \<longrightarrow>
        fst (sensors_get_label env name feature) \<noteq> - SENSORS_ERR_WILDCARDS
        \<and> sensors_get_ignored env name feature \<noteq> - SENSORS_ERR_WILDCARDS
        \<and> (\<forall>r'. sensors_get_feature n env w name feature r \<noteq> Some (- SENSORS_ERR_WILDCARDS, r'))
        \<and> (\<forall>w'. sensors_set_feature n env name feature v w
                \<noteq> Some (- SENSORS_ERR_WILDCARDS, w')))"
proof (intro conjI impI allI)
  show "sensors_chip_name_has_wildcards name \<longleftrightarrow>
      cn_prefix name = None \<or> cn_bus name = BUS_ANY \<or> cn_bus name = BUS_ANY_I2C
      \<or> cn_addr name = None"
    by (simp add: sensors_chip_name_has_wildcards_def)
next
  assume "sensors_chip_name_has_wildcards name"
  then show "sensors_get_label env name feature = (- SENSORS_ERR_WILDCARDS, None)"
    by (simp add: sensors_get_label_def)
next
  assume "sensors_chip_name_has_wildcards name"
  then show "sensors_get_ignored env name feature = - SENSORS_ERR_WILDCARDS"
    by (simp add: sensors_get_ignored_def)
next
  assume "sensors_chip_name_has_wildcards name"
  then show "sensors_get_feature n env w name feature r = Some (- SENSORS_ERR_WILDCARDS, r)"
    by (simp add: sensors_get_feature_unfold get_feature_with_def)
next
  assume "sensors_chip_name_has_wildcards name"
  then show "sensors_set_feature n env name feature v w = Some (- SENSORS_ERR_WILDCARDS, w)"
    by (simp add: sensors_set_feature_def)
next
  assume "\<not> sensors_chip_name_has_wildcards name"
  then show "fst (sensors_get_label env name feature) \<noteq> - SENSORS_ERR_WILDCARDS"
    by (simp add: sensors_get_label_def err_defs split: option.splits)
next
  assume "\<not> sensors_chip_name_has_wildcards name"
  then show "sensors_get_ignored env name feature \<noteq> - SENSORS_ERR_WILDCARDS"
    by (simp add: sensors_get_ignored_def ignore_chips_loop_char err_defs split: option.splits)
next
  fix r'
  assume "\<not> sensors_chip_name_has_wildcards name"
  then show "sensors_get_feature n env w name feature r \<noteq> Some (- SENSORS_ERR_WILDCARDS, r')"
    by (rule get_feature_concrete_code)
next
  fix w'
  assume "\<not> sensors_chip_name_has_wildcards name"
  then show "sensors_set_feature n env name feature v w \<noteq> Some (- SENSORS_ERR_WILDCARDS, w')"
    by (rule set_feature_concrete_code)
qed

text \<open>
  The theorem at a chip name whose address is ANY and at a concrete chip name, on a
  catalogue that knows feature 1.
\<close>

theorem wildcards_rejected_witness:
  "sensors_chip_name_has_wildcards ex_fit
   \<and> sensors_get_label ex6_env ex_fit 1 = (- SENSORS_ERR_WILDCARDS, None)
   \<and> sensors_get_ignored ex6_env ex_fit 1 = - SENSORS_ERR_WILDCARDS
   \<and> sensors_get_feature 0 ex6_env ex_world ex_fit 1 0 = Some (- SENSORS_ERR_WILDCARDS, 0)
   \<and> sensors_set_feature 0 ex6_env ex_fit 1 5 ex_world = Some (- SENSORS_ERR_WILDCARDS, ex_world)
   \<and> \<not> sensors_chip_name_has_wildcards ex_chip
   \<and> sensors_get_label ex6_env ex_chip 1 = (0, Some ''in0'')
   \<and> sensors_get_ignored ex6_env ex_chip 1 \<noteq> - SENSORS_ERR_WILDCARDS"
proof -
  have wild: "sensors_chip_name_has_wildcards ex_fit"
    by (simp add: sensors_chip_name_has_wildcards_def ex_fit_def)
  have conc: "\<not> sensors_chip_name_has_wildcards ex_chip"
    by (simp add: sensors_chip_name_has_wildcards_def ex_chip_def)
  have lab: "sensors_get_label ex6_env ex_chip 1 = (0, Some ''in0'')"
    by (simp add: sensors_get_label_def sensors_chip_name_has_wildcards_def
        config_chips_after_None ex6_env_def ex_defs sensors_match_chip_def tolower_def)
  show ?thesis
    using wild conc lab
      wildcards_rejected [of ex_fit ex6_env 1 0 ex_world 0 5]
      wildcards_rejected [of ex_chip ex6_env 1 0 ex_world 0 5]
    by simp
qed

text \<open>
  The claim as written fails for the any-I2C bus selector: the chip name below has no ANY
  component, so it is concrete in the spec's sense, and all four calls reject it.
\<close>

theorem wildcards_any_i2c_counterexample:
  "\<not> spec_wildcard_pattern \<lparr>cn_prefix = Some ''lm78'', cn_bus = BUS_ANY_I2C, cn_addr = Some 45\<rparr>
   \<and> fst (sensors_get_label ex6_env
            \<lparr>cn_prefix = Some ''lm78'', cn_bus = BUS_ANY_I2C, cn_addr = Some 45\<rparr> 1)
       = - SENSORS_ERR_WILDCARDS
   \<and> sensors_get_ignored ex6_env
        \<lparr>cn_prefix = Some ''lm78'', cn_bus = BUS_ANY_I2C, cn_addr = Some 45\<rparr> 1
       = - SENSORS_ERR_WILDCARDS
   \<and> sensors_get_feature 0 ex6_env ex_world
        \<lparr>cn_prefix = Some ''lm78'', cn_bus = BUS_ANY_I2C, cn_addr = Some 45\<rparr> 1 0
       = Some (- SENSORS_ERR_WILDCARDS, 0)
   \<and> sensors_set_feature 0 ex6_env
        \<lparr>cn_prefix = Some ''lm78'', cn_bus = BUS_ANY_I2C, cn_addr = Some 45\<rparr> 1 5 ex_world
       = Some (- SENSORS_ERR_WILDCARDS, ex_world)"
  by (simp add: spec_wildcard_pattern_def sensors_get_label_def sensors_get_ignored_def
      get_feature_with_def sensors_set_feature_def sensors_chip_name_has_wildcards_def)

subsection \<open>C10: a failed set statement is not retried\<close>

text \<open>
  C10. In the loops of \<^verbatim>\<open>sensors_do_this_chip_sets\<close> the feature number of a set
  statement is in the list of the run as soon as the statement has been handled, whatever
  came of evaluating its expression and of writing the value. So when the statement \<open>s\<close>
  first met for a feature number has been handled in state \<open>st0\<close> (with or without an error),
  a later statement \<open>s'\<close> for the same feature number, whether it follows in the same entry or
  stands in an entry scanned later, is skipped: it changes neither the error code, nor the
  list, nor the world, so nothing is evaluated, written or reported for it.
\<close>

theorem failed_set_not_retried:
  assumes pfx: "cn_prefix name = Some pfx"
    and s: "sensors_lookup_feature_name (sensors_chip_features_list env) pfx (set_name s)
              = Some feature"
    and s': "sensors_lookup_feature_name (sensors_chip_features_list env) pfx (set_name s')
              = Some feature'"
    and same: "fd_number (data feature') = fd_number (data feature)"
    and first: "do_set n env name s st0 = Some st1"
    and rest_of_entry: "sets_loop n env name ss1 st1 = Some st2"
    and later_entries: "set_chips_loop n env name chips st2 = Some st3"
    and same_entry: "sets_loop n env name ss2 st3 = Some st4"
  shows "fd_number (data feature) \<in> set (fst (snd st1)) \<and> do_set n env name s' st4 = Some st4"
proof -
  obtain err0 fl0 w0 where st0: "st0 = (err0, fl0, w0)" by (cases st0) auto
  obtain err1 fl1 w1 where st1: "st1 = (err1, fl1, w1)" by (cases st1) auto
  obtain err2 fl2 w2 where st2: "st2 = (err2, fl2, w2)" by (cases st2) auto
  obtain err3 fl3 w3 where st3: "st3 = (err3, fl3, w3)" by (cases st3) auto
  obtain err4 fl4 w4 where st4: "st4 = (err4, fl4, w4)" by (cases st4) auto
  have in1: "fd_number (data feature) \<in> set fl1"
    using do_set_adds [OF pfx s] first unfolding st0 st1 by blast
  have "set fl1 \<subseteq> set fl2"
    using sets_loop_mono rest_of_entry unfolding st1 st2 by blast
  moreover have "set fl2 \<subseteq> set fl3"
    using set_chips_loop_mono later_entries unfolding st2 st3 by blast
  moreover have "set fl3 \<subseteq> set fl4"
    using sets_loop_mono same_entry unfolding st3 st4 by blast
  ultimately have "fd_number (data feature') \<in> set fl4"
    using in1 same by auto
  then have "do_set n env name s' (err4, fl4, w4) = Some (err4, fl4, w4)"
    using pfx s' by (rule do_set_seen [rotated 2])
  then show ?thesis
    using in1 st1 st4 by simp
qed

text \<open>
  The theorem on an example: the statement scanned first for feature 2 divides by zero, so
  its evaluation fails; the statement of the entry scanned second, which could be carried
  out, is skipped, and the run ends with the error and without any write.
\<close>

theorem failed_set_not_retried_witness:
  "cn_prefix ex_chip = Some ''lm78''
   \<and> sensors_lookup_feature_name (sensors_chip_features_list ex10_env) ''lm78''
        (set_name ex10_bad) = Some (mk_feature 2 ''in0_min'' (Some 1) (Some 1) 3)
   \<and> sensors_lookup_feature_name (sensors_chip_features_list ex10_env) ''lm78''
        (set_name ex10_good) = Some (mk_feature 2 ''in0_min'' (Some 1) (Some 1) 3)
   \<and> do_set 0 ex10_env ex_chip ex10_bad (0, [], ex_world)
       = Some (- SENSORS_ERR_DIV_ZERO, [2],
               \<lparr>hw = (), trace = [EvParseError ''Error parsing expression'' 2]\<rparr>)
   \<and> do_set 0 ex10_env ex_chip ex10_good
        (- SENSORS_ERR_DIV_ZERO, [2],
         \<lparr>hw = (), trace = [EvParseError ''Error parsing expression'' 2]\<rparr>)
       = Some (- SENSORS_ERR_DIV_ZERO, [2],
               \<lparr>hw = (), trace = [EvParseError ''Error parsing expression'' 2]\<rparr>)
   \<and> sensors_do_this_chip_sets 0 ex10_env ex_chip ex_world
       = Some (- SENSORS_ERR_DIV_ZERO,
               \<lparr>hw = (), trace = [EvParseError ''Error parsing expression'' 2]\<rparr>)"
proof -
  let ?w1 = "\<lparr>hw = (), trace = [EvParseError ''Error parsing expression'' 2]\<rparr> :: unit world"
  let ?st1 = "(- SENSORS_ERR_DIV_ZERO, [2], ?w1)"
  have pfx: "cn_prefix ex_chip = Some ''lm78''"
    by (simp add: ex_chip_def)
  have lb: "sensors_lookup_feature_name (sensors_chip_features_list ex10_env) ''lm78''
        (set_name ex10_bad) = Some (mk_feature 2 ''in0_min'' (Some 1) (Some 1) 3)"
    by (simp add: ex10_env_def ex10_bad_def ex_defs tolower_def)
  have lg: "sensors_lookup_feature_name (sensors_chip_features_list ex10_env) ''lm78''
        (set_name ex10_good) = Some (mk_feature 2 ''in0_min'' (Some 1) (Some 1) 3)"
    by (simp add: ex10_env_def ex10_good_def ex_defs tolower_def)
  have first: "do_set 0 ex10_env ex_chip ex10_bad (0, [], ex_world) = Some ?st1"
    by (simp add: run_defs err_defs ex10_env_def ex10_bad_def ex_defs)
  have e1: "sets_loop 0 ex10_env ex_chip [] ?st1 = Some ?st1"
    by simp
  have e2: "set_chips_loop 0 ex10_env ex_chip [] ?st1 = Some ?st1"
    by simp
  from failed_set_not_retried [OF pfx lb lg refl first e1 e2 e1]
  have skip: "do_set 0 ex10_env ex_chip ex10_good ?st1 = Some ?st1"
    by simp
  have scan: "config_chips_after (sensors_config_chips ex10_env) ex_chip None
      = [\<lparr>fits = [ex_chip], labels = [], sets = [ex10_bad], computes = [], ignores = []\<rparr>,
         \<lparr>fits = [ex_fit], labels = [], sets = [ex10_good], computes = [], ignores = []\<rparr>]"
    by (simp add: config_chips_after_None ex10_env_def ex_defs sensors_match_chip_def tolower_def)
  have run: "sensors_do_this_chip_sets 0 ex10_env ex_chip ex_world
       = Some (- SENSORS_ERR_DIV_ZERO, ?w1)"
    unfolding sensors_do_this_chip_sets_def scan
    by (simp add: first skip)
  show ?thesis
    using pfx lb lg first skip run by simp
qed

end
